theory Spec2Isabelle
  imports Main "HOL-Library.Word"
begin

unbundle bit_operations_syntax

section \<open>Data model\<close>

text \<open>
  A JavaScript string is a sequence of UTF-16 code units, a \<open>Buffer\<close> a sequence of
  bytes. ASCII literals of the source are written \<open>js ''...''\<close>.
\<close>

type_synonym byte = "8 word"
type_synonym jschar = "16 word"
type_synonym jsstring = "jschar list"

definition js :: "string \<Rightarrow> jsstring" where
  "js s = map of_char s"

text \<open>
  An optional string field (\<open>string | null | undefined\<close>) is a \<open>jsstring option\<close>.
  JavaScript's truthiness test on such a field (\<open>if (x)\<close>, \<open>x && ...\<close>, \<open>x ? a : b\<close>)
  holds exactly when the field is present and not the empty string.
\<close>

definition truthy :: "jsstring option \<Rightarrow> bool" where
  "truthy v = (case v of None \<Rightarrow> False | Some s \<Rightarrow> s \<noteq> [])"

text \<open>
  The provider's message part (\<open>gmail_v1.Schema$MessagePart\<close>), its body and its
  headers. Every field is optional in the provider's schema. Trees that break this
  type are modelled in a section of their own, for the decode side.
\<close>

datatype header = Header (hname: "jsstring option") (hvalue: "jsstring option")

datatype body = Body (attachmentId: "jsstring option") (data: "jsstring option")
  (bsize: "int option")

datatype part = Part (mimeType: "jsstring option") (filename: "jsstring option")
  (headers: "header list option") (body: "body option") (parts: "part list option")

text \<open>
  An attachment descriptor. The first implementation (services/gmail.ts) builds objects
  without an \<open>attachmentId\<close> property: the field is \<open>None\<close> there.
\<close>

datatype attachment = Attachment (att_filename: jsstring) (att_mimeType: jsstring)
  (att_size: int) (att_attachmentId: "jsstring option")

section \<open>The text-safe codec\<close>

subsection \<open>Base64 on buffers\<close>

text \<open>
  \<open>buf.toString("base64")\<close> and \<open>buf.toString("base64url")\<close> of the Node.js runtime:
  three bytes give four characters of the alphabet; one or two trailing bytes give two
  or three characters, followed by \<open>=\<close> padding in the standard variant only.
\<close>

definition base64_alphabet :: jsstring where
  "base64_alphabet = js ''ABCDEFGHIJKLMNOPQRSTUVWXYZabcdefghijklmnopqrstuvwxyz0123456789+/''"

definition base64url_alphabet :: jsstring where
  "base64url_alphabet = js ''ABCDEFGHIJKLMNOPQRSTUVWXYZabcdefghijklmnopqrstuvwxyz0123456789-_''"

fun base64_encode :: "jsstring \<Rightarrow> bool \<Rightarrow> byte list \<Rightarrow> jsstring" where
  "base64_encode al pad [] = []"
| "base64_encode al pad [a] =
     [al ! unat (drop_bit 2 a), al ! unat (push_bit 4 (a AND 3))] @
     (if pad then js ''=='' else [])"
| "base64_encode al pad [a, b] =
     [al ! unat (drop_bit 2 a), al ! unat (push_bit 4 (a AND 3) OR drop_bit 4 b),
      al ! unat (push_bit 2 (b AND 15))] @
     (if pad then js ''='' else [])"
| "base64_encode al pad (a # b # c # rest) =
     [al ! unat (drop_bit 2 a), al ! unat (push_bit 4 (a AND 3) OR drop_bit 4 b),
      al ! unat (push_bit 2 (b AND 15) OR drop_bit 6 c), al ! unat (c AND 63)] @
     base64_encode al pad rest"

text \<open>
  \<open>Buffer.from(s, "base64url")\<close> of the Node.js runtime never throws. Its decoder reads
  the low byte of every code unit, accepts the characters of both alphabets
  (\<open>unbase64\<close>), skips every other character and stops at the first \<open>=\<close>. The
  accepted characters are read as a stream of six-bit values: four of them give three
  bytes, a trailing group of three gives two bytes, of two gives one byte, and a single
  trailing character gives nothing.
\<close>

definition unbase64 :: "byte \<Rightarrow> byte option" where
  "unbase64 c =
     (if 0x41 \<le> c \<and> c \<le> 0x5A then Some (c - 0x41)
      else if 0x61 \<le> c \<and> c \<le> 0x7A then Some (c - 0x61 + 26)
      else if 0x30 \<le> c \<and> c \<le> 0x39 then Some (c - 0x30 + 52)
      else if c = 0x2B \<or> c = 0x2D then Some 62
      else if c = 0x2F \<or> c = 0x5F then Some 63
      else None)"

fun base64_sextets :: "byte list \<Rightarrow> byte list" where
  "base64_sextets [] = []"
| "base64_sextets (c # cs) =
     (case unbase64 c of
        Some v \<Rightarrow> v # base64_sextets cs
      | None \<Rightarrow> if c = 0x3D then [] else base64_sextets cs)"

fun sextets_bytes :: "byte list \<Rightarrow> byte list" where
  "sextets_bytes (a # b # c # d # rest) =
     [push_bit 2 (a AND 0x3F) OR drop_bit 4 (b AND 0x30),
      push_bit 4 (b AND 0x0F) OR drop_bit 2 (c AND 0x3C),
      push_bit 6 (c AND 0x03) OR (d AND 0x3F)] @ sextets_bytes rest"
| "sextets_bytes [a, b, c] =
     [push_bit 2 (a AND 0x3F) OR drop_bit 4 (b AND 0x30),
      push_bit 4 (b AND 0x0F) OR drop_bit 2 (c AND 0x3C)]"
| "sextets_bytes [a, b] = [push_bit 2 (a AND 0x3F) OR drop_bit 4 (b AND 0x30)]"
| "sextets_bytes [a] = []"
| "sextets_bytes [] = []"

definition base64_decode :: "jsstring \<Rightarrow> byte list" where
  "base64_decode s = sextets_bytes (base64_sextets (map ucast s))"

subsection \<open>UTF-8 between strings and buffers\<close>

text \<open>
  \<open>Buffer.from(s, "utf-8")\<close>: the UTF-8 encoding of the string's code points. A
  surrogate pair is one code point of four bytes; a surrogate that is not part of a
  pair is written as U+FFFD (\<open>EF BF BD\<close>).
\<close>

definition replacement :: "byte list" where
  "replacement = [0xEF, 0xBF, 0xBD]"

fun utf8_encode :: "jsstring \<Rightarrow> byte list" where
  "utf8_encode [] = []"
| "utf8_encode (c # cs) =
     (if c < 0x80 then ucast c # utf8_encode cs
      else if c < 0x800 then
        [0xC0 OR ucast (drop_bit 6 c), 0x80 OR ucast (c AND 0x3F)] @ utf8_encode cs
      else if 0xD800 \<le> c \<and> c \<le> 0xDBFF then
        (case cs of
           d # ds \<Rightarrow>
             if 0xDC00 \<le> d \<and> d \<le> 0xDFFF then
               (let cp = (0x10000 :: 32 word) + push_bit 10 (ucast (c AND 0x3FF)) +
                         ucast (d AND 0x3FF)
                in [0xF0 OR ucast (drop_bit 18 cp), 0x80 OR ucast (drop_bit 12 cp AND 0x3F),
                    0x80 OR ucast (drop_bit 6 cp AND 0x3F), 0x80 OR ucast (cp AND 0x3F)] @
                   utf8_encode ds)
             else replacement @ utf8_encode cs
         | [] \<Rightarrow> replacement)
      else if 0xDC00 \<le> c \<and> c \<le> 0xDFFF then replacement @ utf8_encode cs
      else [0xE0 OR ucast (drop_bit 12 c), 0x80 OR ucast (drop_bit 6 c AND 0x3F),
            0x80 OR ucast (c AND 0x3F)] @ utf8_encode cs)"

text \<open>
  \<open>buf.toString("utf-8")\<close>: the UTF-8 decoder. It never throws: a byte that cannot
  start or continue a sequence ends the sequence read so far, which becomes one U+FFFD,
  and is then read again as the start of a new sequence. The state is the code point
  collected so far, the number of continuation bytes still needed, and the bounds the
  next continuation byte must respect.
\<close>

type_synonym utf8_state = "32 word \<times> nat \<times> byte \<times> byte"

definition utf8_start :: utf8_state where
  "utf8_start = (0, 0, 0x80, 0xBF)"

definition utf8_lead :: "byte \<Rightarrow> jsstring \<times> utf8_state" where
  "utf8_lead b =
     (if b \<le> 0x7F then ([ucast b], utf8_start)
      else if 0xC2 \<le> b \<and> b \<le> 0xDF then ([], (ucast (b AND 0x1F), 1, 0x80, 0xBF))
      else if 0xE0 \<le> b \<and> b \<le> 0xEF then
        ([], (ucast (b AND 0x0F), 2, if b = 0xE0 then 0xA0 else 0x80,
              if b = 0xED then 0x9F else 0xBF))
      else if 0xF0 \<le> b \<and> b \<le> 0xF4 then
        ([], (ucast (b AND 0x07), 3, if b = 0xF0 then 0x90 else 0x80,
              if b = 0xF4 then 0x8F else 0xBF))
      else ([0xFFFD], utf8_start))"

definition code_units :: "32 word \<Rightarrow> jsstring" where
  "code_units cp =
     (if cp < 0x10000 then [ucast cp]
      else [0xD800 + ucast (drop_bit 10 (cp - 0x10000)),
            0xDC00 + ucast ((cp - 0x10000) AND 0x3FF)])"

fun utf8_decode_from :: "utf8_state \<Rightarrow> byte list \<Rightarrow> jsstring" where
  "utf8_decode_from (cp, needed, lo, hi) [] = (if needed \<noteq> 0 then [0xFFFD] else [])"
| "utf8_decode_from (cp, needed, lo, hi) (b # bs) =
     (if needed = 0 then
        (case utf8_lead b of (out, st) \<Rightarrow> out @ utf8_decode_from st bs)
      else if b < lo \<or> hi < b then
        (case utf8_lead b of (out, st) \<Rightarrow> 0xFFFD # out @ utf8_decode_from st bs)
      else
        (let cp' = push_bit 6 cp OR ucast (b AND 0x3F) in
         if needed = 1 then code_units cp' @ utf8_decode_from utf8_start bs
         else utf8_decode_from (cp', needed - 1, 0x80, 0xBF) bs))"

definition utf8_decode :: "byte list \<Rightarrow> jsstring" where
  "utf8_decode bs = utf8_decode_from utf8_start bs"

subsection \<open>The two helpers of the service module\<close>

text \<open>\<open>decodeBase64Url\<close> and \<open>encodeBase64Url\<close>, the same in both implementations.\<close>

definition decodeBase64Url :: "jsstring \<Rightarrow> jsstring" where
  "decodeBase64Url d = utf8_decode (base64_decode d)"

definition encodeBase64Url :: "jsstring \<Rightarrow> jsstring" where
  "encodeBase64Url d = base64_encode base64url_alphabet False (utf8_encode d)"

text \<open>
  What it means for a transport string to be uncorrupted: it consists of characters of
  the URL-safe alphabet, as many as a base64 encoder can produce (never one more than a
  multiple of four), followed by no padding, by \<open>=\<close> or by \<open>==\<close>.
\<close>

definition is_base64url :: "jsstring \<Rightarrow> bool" where
  "is_base64url s =
     (let text = takeWhile (\<lambda>c. c \<noteq> 0x3D) s; padding = dropWhile (\<lambda>c. c \<noteq> 0x3D) s in
      list_all (\<lambda>c. c \<in> set base64url_alphabet) text \<and> length text mod 4 \<noteq> 1 \<and>
      (padding = [] \<or> padding = js ''='' \<or> padding = js ''==''))"

text \<open>
  The characters the decoder accepts (those of either alphabet, read by their low
  byte), and the padding character at which it stops.
\<close>

definition accepted :: "jschar \<Rightarrow> bool" where
  "accepted c = (unbase64 (ucast c) \<noteq> None)"

definition is_pad :: "jschar \<Rightarrow> bool" where
  "is_pad c = ((ucast c :: byte) = 0x3D)"

section \<open>HTML-to-text degradation\<close>

subsection \<open>Regular expressions\<close>

text \<open>
  The regular expressions of \<open>stripHtmlTags\<close> are sequences of character classes,
  each matched once, optionally (\<open>?\<close>), any number of times (\<open>*\<close>) or at least once
  (\<open>+\<close>). \<open>rmatch\<close> is the backtracking matcher of JavaScript on such a sequence:
  quantifiers are greedy and give characters back when the rest of the pattern fails.
  It returns the length of the match that starts at the head of the input.
\<close>

datatype quant = One | Opt | Star | Plus

type_synonym rx = "((jschar \<Rightarrow> bool) \<times> quant) list"

fun rmatch :: "rx \<Rightarrow> jsstring \<Rightarrow> nat option" where
  "rmatch [] s = Some 0"
| "rmatch ((p, One) # r) s =
     (case s of [] \<Rightarrow> None
      | x # xs \<Rightarrow> if p x then map_option Suc (rmatch r xs) else None)"
| "rmatch ((p, Opt) # r) s =
     (case s of [] \<Rightarrow> rmatch r []
      | x # xs \<Rightarrow>
          if p x then (case rmatch r xs of Some n \<Rightarrow> Some (Suc n) | None \<Rightarrow> rmatch r s)
          else rmatch r s)"
| "rmatch ((p, Star) # r) s =
     (case s of [] \<Rightarrow> rmatch r []
      | x # xs \<Rightarrow>
          if p x then
            (case rmatch ((p, Star) # r) xs of Some n \<Rightarrow> Some (Suc n) | None \<Rightarrow> rmatch r s)
          else rmatch r s)"
| "rmatch ((p, Plus) # r) s =
     (case s of [] \<Rightarrow> None
      | x # xs \<Rightarrow> if p x then map_option Suc (rmatch ((p, Star) # r) xs) else None)"

text \<open>
  \<open>s.replace(re, rep)\<close> with a global regular expression and a replacement string that
  holds no \<open>$\<close>: the input is scanned from the left; where the pattern matches, the
  replacement is written and the scan goes on behind the match (the counter is the
  number of matched characters still to skip); elsewhere the character is copied.
  \<open>replace_from\<close> is the scan for any way \<open>m\<close> of finding a match at the head of the
  input; \<open>replace\<close> runs it with the matcher of the regular expression.
\<close>

fun replace_from ::
  "(jsstring \<Rightarrow> nat option) \<Rightarrow> jsstring \<Rightarrow> nat \<Rightarrow> jsstring \<Rightarrow> jsstring" where
  "replace_from m rep k [] = (if k = 0 \<and> m [] \<noteq> None then rep else [])"
| "replace_from m rep (Suc k) (x # xs) = replace_from m rep k xs"
| "replace_from m rep 0 (x # xs) =
     (case m (x # xs) of
        None \<Rightarrow> x # replace_from m rep 0 xs
      | Some 0 \<Rightarrow> rep @ x # replace_from m rep 0 xs
      | Some (Suc n) \<Rightarrow> rep @ replace_from m rep n xs)"

definition replace :: "rx \<Rightarrow> jsstring \<Rightarrow> jsstring \<Rightarrow> jsstring" where
  "replace re rep s = replace_from (rmatch re) rep 0 s"

text \<open>
  Pattern characters: \<open>chr\<close> matches one code unit, \<open>chr_i\<close> a letter under the
  \<open>i\<close> flag (no code unit outside ASCII is canonicalised to an ASCII letter), \<open>lit\<close> a
  literal text. \<open>is_space\<close> is the class \<open>\s\<close>, which is also what \<open>trim\<close> removes:
  the white space and line terminator code points of ECMAScript.
\<close>

definition chr :: "jschar \<Rightarrow> (jschar \<Rightarrow> bool) \<times> quant" where
  "chr c = (\<lambda>x. x = c, One)"

definition chr_i :: "jschar \<Rightarrow> jschar \<Rightarrow> (jschar \<Rightarrow> bool) \<times> quant" where
  "chr_i lower upper = (\<lambda>x. x = lower \<or> x = upper, One)"

definition lit :: "string \<Rightarrow> rx" where
  "lit w = map chr (js w)"

definition is_space :: "jschar \<Rightarrow> bool" where
  "is_space c = (c \<in> {0x09, 0x0A, 0x0B, 0x0C, 0x0D, 0x20, 0xA0, 0x1680, 0x2028, 0x2029,
      0x202F, 0x205F, 0x3000, 0xFEFF} \<or> (0x2000 \<le> c \<and> c \<le> 0x200A))"

text \<open>The four tag patterns: \<open>/<br\s*\/?>/gi\<close>, \<open>/<\/p>/gi\<close>, \<open>/<\/div>/gi\<close> and
  \<open>/<[^>]+>/g\<close>.\<close>

definition re_br :: rx where
  "re_br = [chr 0x3C, chr_i 0x62 0x42, chr_i 0x72 0x52, (is_space, Star),
            (\<lambda>x. x = 0x2F, Opt), chr 0x3E]"

definition re_close_p :: rx where
  "re_close_p = [chr 0x3C, chr 0x2F, chr_i 0x70 0x50, chr 0x3E]"

definition re_close_div :: rx where
  "re_close_div =
     [chr 0x3C, chr 0x2F, chr_i 0x64 0x44, chr_i 0x69 0x49, chr_i 0x76 0x56, chr 0x3E]"

definition re_tag :: rx where
  "re_tag = [chr 0x3C, (\<lambda>x. x \<noteq> 0x3E, Plus), chr 0x3E]"

definition trim :: "jsstring \<Rightarrow> jsstring" where
  "trim s = rev (dropWhile is_space (rev (dropWhile is_space s)))"

subsection \<open>stripHtmlTags\<close>

text \<open>The chain of \<open>replace\<close> calls of the source, innermost first, and the final
  \<open>trim\<close>. A line break is the code unit \<open>0x0A\<close>.\<close>

definition stripHtmlTags :: "jsstring \<Rightarrow> jsstring" where
  "stripHtmlTags html =
     trim (replace (lit ''&#39;'') [0x27]
       (replace (lit ''&quot;'') [0x22]
         (replace (lit ''&gt;'') [0x3E]
           (replace (lit ''&lt;'') [0x3C]
             (replace (lit ''&amp;'') [0x26]
               (replace (lit ''&nbsp;'') [0x20]
                 (replace re_tag []
                   (replace re_close_div [0x0A]
                     (replace re_close_p [0x0A, 0x0A]
                       (replace re_br [0x0A] html))))))))))"

subsection \<open>The degradation step by step\<close>

text \<open>
  The same transformation described without regular expressions. Each recogniser
  returns the length of the piece of markup at the head of the input, if there is one.
  \<open>br_tag\<close>: a line-break tag without attributes, that is \<open><br\<close> in either case, any
  white space, an optional slash and \<open>>\<close>. \<open>closing_tag name\<close>: \<open></\<close>, the name in
  either case, and \<open>>\<close>. \<open>any_tag\<close>: \<open><\<close>, at least one character other than \<open>>\<close>,
  and the next \<open>>\<close>. \<open>entity w\<close>: the text \<open>w\<close>. \<open>substitute\<close> replaces the pieces a
  recogniser finds, from left to right.
\<close>

definition br_tag :: "jsstring \<Rightarrow> nat option" where
  "br_tag s =
     (case s of
        lt # b # r # rest \<Rightarrow>
          if lt = 0x3C \<and> (b = 0x62 \<or> b = 0x42) \<and> (r = 0x72 \<or> r = 0x52) then
            (case dropWhile is_space rest of
               [] \<Rightarrow> None
             | x # rest2 \<Rightarrow>
                 if x = 0x3E then Some (length (takeWhile is_space rest) + 4)
                 else if x = 0x2F then
                   (case rest2 of
                      [] \<Rightarrow> None
                    | y # rest3 \<Rightarrow>
                        if y = 0x3E then Some (length (takeWhile is_space rest) + 5) else None)
                 else None)
          else None
      | _ \<Rightarrow> None)"

fun letters :: "jsstring \<Rightarrow> jsstring \<Rightarrow> jsstring option" where
  "letters [] s = Some s"
| "letters (l # ls) [] = None"
| "letters (l # ls) (c # cs) = (if c = l \<or> c = l - 0x20 then letters ls cs else None)"

definition closing_tag :: "string \<Rightarrow> jsstring \<Rightarrow> nat option" where
  "closing_tag name s =
     (case s of
        lt # sl # rest \<Rightarrow>
          if lt = 0x3C \<and> sl = 0x2F then
            (case letters (js name) rest of
               Some (gt # rest2) \<Rightarrow> if gt = 0x3E then Some (length name + 3) else None
             | _ \<Rightarrow> None)
          else None
      | _ \<Rightarrow> None)"

definition any_tag :: "jsstring \<Rightarrow> nat option" where
  "any_tag s =
     (case s of
        [] \<Rightarrow> None
      | lt # rest \<Rightarrow>
          if lt = 0x3C \<and> takeWhile (\<lambda>x. x \<noteq> 0x3E) rest \<noteq> [] \<and>
             dropWhile (\<lambda>x. x \<noteq> 0x3E) rest \<noteq> []
          then Some (length (takeWhile (\<lambda>x. x \<noteq> 0x3E) rest) + 2)
          else None)"

definition entity :: "string \<Rightarrow> jsstring \<Rightarrow> nat option" where
  "entity w s = (if take (length w) s = js w then Some (length w) else None)"

definition substitute :: "(jsstring \<Rightarrow> nat option) \<Rightarrow> jsstring \<Rightarrow> jsstring \<Rightarrow> jsstring" where
  "substitute piece rep s = replace_from piece rep 0 s"

definition spec_stripHtmlTags :: "jsstring \<Rightarrow> jsstring" where
  "spec_stripHtmlTags html =
     (let s1 = substitute br_tag [0x0A] html;
          s2 = substitute (closing_tag ''p'') [0x0A, 0x0A] s1;
          s3 = substitute (closing_tag ''div'') [0x0A] s2;
          s4 = substitute any_tag [] s3;
          s5 = substitute (entity ''&nbsp;'') [0x20] s4;
          s6 = substitute (entity ''&amp;'') [0x26] s5;
          s7 = substitute (entity ''&lt;'') [0x3C] s6;
          s8 = substitute (entity ''&gt;'') [0x3E] s7;
          s9 = substitute (entity ''&quot;'') [0x22] s8;
          s10 = substitute (entity ''&#39;'') [0x27] s9
      in trim s10)"

section \<open>Body decoding\<close>

text \<open>
  \<open>payload.body?.data\<close> where the source tests it for truthiness: the inline payload,
  if there is a non-empty one. \<open>found_data\<close> is the same test behind
  \<open>textPart?.body?.data\<close>, on the result of \<open>Array.prototype.find\<close>.
\<close>

definition inline_data :: "body option \<Rightarrow> jsstring option" where
  "inline_data b =
     (case b of None \<Rightarrow> None
      | Some bd \<Rightarrow> (case data bd of None \<Rightarrow> None | Some d \<Rightarrow> if d \<noteq> [] then Some d else None))"

definition found_data :: "part option \<Rightarrow> jsstring option" where
  "found_data found = (case found of None \<Rightarrow> None | Some p \<Rightarrow> inline_data (body p))"

text \<open>
  \<open>extractBody\<close>, the same in both implementations. \<open>extractBody_loop\<close> is the final
  \<open>for\<close> loop over \<open>payload.parts\<close>, which returns the first non-empty result of a
  recursive call; when the loop ends the function returns the empty string.
\<close>

fun extractBody :: "part option \<Rightarrow> jsstring"
  and extractBody_loop :: "part list \<Rightarrow> jsstring" where
  "extractBody None = []"
| "extractBody (Some (Part mt fn hs b ps)) =
     (case inline_data b of
        Some d \<Rightarrow>
          (let decoded = decodeBase64Url d in
           if mt = Some (js ''text/plain'') then decoded
           else if mt = Some (js ''text/html'') then stripHtmlTags decoded
           else decoded)
      | None \<Rightarrow>
          (case ps of
             None \<Rightarrow> []
           | Some xs \<Rightarrow>
               (case found_data (find (\<lambda>p. mimeType p = Some (js ''text/plain'')) xs) of
                  Some d \<Rightarrow> decodeBase64Url d
                | None \<Rightarrow>
                    (case found_data (find (\<lambda>p. mimeType p = Some (js ''text/html'')) xs) of
                       Some d \<Rightarrow> stripHtmlTags (decodeBase64Url d)
                     | None \<Rightarrow> extractBody_loop xs))))"
| "extractBody_loop [] = []"
| "extractBody_loop (p # rest) =
     (let body = extractBody (Some p) in if body \<noteq> [] then body else extractBody_loop rest)"

text \<open>
  The plain-text rule as the specification words it: the first child whose MIME type
  is exactly \<open>text/plain\<close> and which carries inline payload.
\<close>

definition spec_plain_child :: "part list \<Rightarrow> part option" where
  "spec_plain_child xs =
     find (\<lambda>p. mimeType p = Some (js ''text/plain'') \<and> inline_data (body p) \<noteq> None) xs"

section \<open>Attachment enumeration\<close>

text \<open>\<open>part.mimeType ?? "application/octet-stream"\<close>, \<open>part.body?.size ?? 0\<close> and
  \<open>part.body?.attachmentId\<close>.\<close>

definition mimeType_or_default :: "part \<Rightarrow> jsstring" where
  "mimeType_or_default p =
     (case mimeType p of None \<Rightarrow> js ''application/octet-stream'' | Some m \<Rightarrow> m)"

definition size_or_zero :: "part \<Rightarrow> int" where
  "size_or_zero p =
     (case body p of None \<Rightarrow> 0 | Some b \<Rightarrow> (case bsize b of None \<Rightarrow> 0 | Some n \<Rightarrow> n))"

definition body_attachmentId :: "part \<Rightarrow> jsstring option" where
  "body_attachmentId p = (case body p of None \<Rightarrow> None | Some b \<Rightarrow> attachmentId b)"

text \<open>
  \<open>extractAttachments\<close> of services/gmail.ts. The \<open>for\<close> loop over \<open>payload.parts\<close> is
  \<open>extractAttachments_loop\<close>, which threads the array \<open>attachments\<close>.
\<close>

fun extractAttachments :: "part option \<Rightarrow> attachment list"
  and extractAttachments_loop :: "part list \<Rightarrow> attachment list \<Rightarrow> attachment list" where
  "extractAttachments None = []"
| "extractAttachments (Some (Part mt fn hs b None)) = []"
| "extractAttachments (Some (Part mt fn hs b (Some ps))) = extractAttachments_loop ps []"
| "extractAttachments_loop [] attachments = attachments"
| "extractAttachments_loop (p # rest) attachments =
     (let pushed =
        (case filename p of
           Some f \<Rightarrow>
             if f \<noteq> [] \<and> length f > 0
             then attachments @ [Attachment f (mimeType_or_default p) (size_or_zero p) None]
             else attachments
         | None \<Rightarrow> attachments);
          spread =
        (if parts p \<noteq> None then pushed @ extractAttachments (Some p) else pushed)
      in extractAttachments_loop rest spread)"

text \<open>
  \<open>extractAttachments\<close> of the second implementation (the service module in the second
  half of tools/write.ts): a part is pushed only if \<open>part.body?.attachmentId\<close> is truthy
  as well, and the descriptor carries it.
\<close>

fun extractAttachments_w :: "part option \<Rightarrow> attachment list"
  and extractAttachments_w_loop :: "part list \<Rightarrow> attachment list \<Rightarrow> attachment list" where
  "extractAttachments_w None = []"
| "extractAttachments_w (Some (Part mt fn hs b None)) = []"
| "extractAttachments_w (Some (Part mt fn hs b (Some ps))) = extractAttachments_w_loop ps []"
| "extractAttachments_w_loop [] attachments = attachments"
| "extractAttachments_w_loop (p # rest) attachments =
     (let pushed =
        (case filename p of
           Some f \<Rightarrow>
             if f \<noteq> [] \<and> length f > 0 \<and> truthy (body_attachmentId p)
             then attachments @
               [Attachment f (mimeType_or_default p) (size_or_zero p) (body_attachmentId p)]
             else attachments
         | None \<Rightarrow> attachments);
          spread =
        (if parts p \<noteq> None then pushed @ extractAttachments_w (Some p) else pushed)
      in extractAttachments_w_loop rest spread)"

text \<open>
  Vocabulary for stating what the enumeration returns: the parts strictly below a part
  in pre-order, the test for a non-empty filename, the test for a non-empty attachment
  reference, and the descriptor of a part.
\<close>

fun descendants :: "part \<Rightarrow> part list" where
  "descendants (Part mt fn hs b ps) =
     (case ps of None \<Rightarrow> [] | Some cs \<Rightarrow> concat (map (\<lambda>c. c # descendants c) cs))"

definition named :: "part \<Rightarrow> bool" where
  "named p = truthy (filename p)"

definition referenced :: "part \<Rightarrow> bool" where
  "referenced p = truthy (body_attachmentId p)"

definition descriptor :: "part \<Rightarrow> attachment" where
  "descriptor p = Attachment (case filename p of Some f \<Rightarrow> f | None \<Rightarrow> [])
     (mimeType_or_default p) (size_or_zero p) None"

definition descriptor_w :: "part \<Rightarrow> attachment" where
  "descriptor_w p = Attachment (case filename p of Some f \<Rightarrow> f | None \<Rightarrow> [])
     (mimeType_or_default p) (size_or_zero p) (body_attachmentId p)"

text \<open>
  The enumeration as the specification words it: every part of the tree, the root
  included, that has a non-empty filename, in pre-order, whether or not it carries an
  attachment reference.
\<close>

definition spec_listAttachments :: "part \<Rightarrow> attachment list" where
  "spec_listAttachments p = map descriptor_w (filter named (p # descendants p))"

section \<open>The decode side on loosely typed input\<close>

text \<open>
  The tree handed to \<open>extractBody\<close> and \<open>extractAttachments\<close> is parsed JSON of the
  provider's response; the type \<open>Schema$MessagePart\<close> is a compile-time annotation and
  nothing holds the value to it at run time. This section models the two functions on
  trees that may break that type, with the exceptions of the source as results.

  A property that the code reads as a leaf (\<open>mimeType\<close>, \<open>filename\<close>, \<open>data\<close>, \<open>size\<close>,
  \<open>attachmentId\<close>) holds a primitive value: \<open>undefined\<close> (which is also what reading a
  missing property gives), \<open>null\<close>, a boolean, a number or a string. Numbers are
  integers here, as sizes are.
\<close>

datatype prim = Undefined | Null | Boolean bool | Number int | Text jsstring

text \<open>
  The exception these functions can raise is a \<open>TypeError\<close>: from reading a property of
  \<open>null\<close> or \<open>undefined\<close>, from calling \<open>find\<close> on a value that has no such method, from
  iterating over a value that is not iterable, and from \<open>Buffer.from\<close> given a boolean
  or a number.
\<close>

datatype js_error = TypeError

text \<open>Truthiness of a primitive value, and the test \<open>x == null\<close> behind \<open>?.\<close> and \<open>??\<close>.\<close>

fun truthy_v :: "prim \<Rightarrow> bool" where
  "truthy_v Undefined = False"
| "truthy_v Null = False"
| "truthy_v (Boolean b) = b"
| "truthy_v (Number n) = (n \<noteq> 0)"
| "truthy_v (Text s) = (s \<noteq> [])"

fun nullish :: "prim \<Rightarrow> bool" where
  "nullish Undefined = True"
| "nullish Null = True"
| "nullish _ = False"

text \<open>
  \<open>body\<close> is a primitive value or an object, which is given by the three properties the
  code reads from it. A child, like the root, is a primitive value (\<open>null\<close> among them)
  or an object, given by its four properties. \<open>parts\<close> is a primitive value, an array,
  or an object that is not an array (\<open>PartsObject\<close>): such an object has no callable
  \<open>find\<close> and is not iterable.
\<close>

datatype loose_body = BodyValue prim
  | BodyObject (b_attachmentId: prim) (b_data: prim) (b_size: prim)

datatype loose_part = Value prim
  | Object (p_mimeType: prim) (p_filename: prim) (p_body: loose_body) (p_parts: loose_parts)
and loose_parts = PartsValue prim | PartsObject | PartsArray "loose_part list"

text \<open>
  An attachment descriptor as the loop pushes it: its properties hold whatever the part
  held. The descriptor of services/gmail.ts has no \<open>attachmentId\<close>.
\<close>

datatype descriptor_l = Descriptor (d_filename: prim) (d_mimeType: prim) (d_size: prim)
  (d_attachmentId: prim)

text \<open>
  \<open>x.body?.data\<close>, \<open>x.body?.size\<close> and \<open>x.body?.attachmentId\<close> for an object \<open>x\<close>: the chain
  gives \<open>undefined\<close> when \<open>body\<close> is \<open>null\<close> or \<open>undefined\<close>, and so does the property
  read when \<open>body\<close> is any other primitive value.
\<close>

fun body_data :: "loose_body \<Rightarrow> prim" where
  "body_data (BodyValue v) = Undefined"
| "body_data (BodyObject a d s) = d"

fun body_size :: "loose_body \<Rightarrow> prim" where
  "body_size (BodyValue v) = Undefined"
| "body_size (BodyObject a d s) = s"

fun body_attachmentId_l :: "loose_body \<Rightarrow> prim" where
  "body_attachmentId_l (BodyValue v) = Undefined"
| "body_attachmentId_l (BodyObject a d s) = a"

text \<open>
  \<open>decodeBase64Url\<close> on a primitive value: \<open>Buffer.from\<close> decodes a string and raises a
  \<open>TypeError\<close> for anything else.
\<close>

definition decodeBase64Url_l :: "prim \<Rightarrow> js_error + jsstring" where
  "decodeBase64Url_l d = (case d of Text s \<Rightarrow> Inr (decodeBase64Url s) | _ \<Rightarrow> Inl TypeError)"

text \<open>
  \<open>payload.parts.find((p) => p.mimeType === m)\<close> on an array. The callback raises on an
  element that is \<open>null\<close> or \<open>undefined\<close> and is false on any other primitive element,
  which has no \<open>mimeType\<close>; the search ends at the first element for which it is true,
  so that later elements are not looked at. \<open>found_data_l\<close> is \<open>textPart?.body?.data\<close> on
  the result.
\<close>

fun find_l :: "jsstring \<Rightarrow> loose_part list \<Rightarrow> js_error + loose_part option" where
  "find_l m [] = Inr None"
| "find_l m (Value v # rest) = (if nullish v then Inl TypeError else find_l m rest)"
| "find_l m (Object mt fn b ps # rest) =
     (if mt = Text m then Inr (Some (Object mt fn b ps)) else find_l m rest)"

fun found_data_l :: "loose_part option \<Rightarrow> prim" where
  "found_data_l None = Undefined"
| "found_data_l (Some (Value v)) = Undefined"
| "found_data_l (Some (Object mt fn b ps)) = body_data b"

text \<open>
  \<open>extractBody\<close>. A primitive root is either falsy, and the function returns the empty
  string at once, or it has neither \<open>body\<close> nor \<open>parts\<close>, and the function returns the
  empty string at its end. On an object, a truthy \<open>parts\<close> that is not an array has no
  \<open>find\<close> to call.
\<close>

fun extractBody_l :: "loose_part \<Rightarrow> js_error + jsstring"
  and extractBody_l_loop :: "loose_part list \<Rightarrow> js_error + jsstring" where
  "extractBody_l (Value v) = Inr []"
| "extractBody_l (Object mt fn b ps) =
     (if truthy_v (body_data b) then
        (case decodeBase64Url_l (body_data b) of
           Inl e \<Rightarrow> Inl e
         | Inr decoded \<Rightarrow>
             if mt = Text (js ''text/plain'') then Inr decoded
             else if mt = Text (js ''text/html'') then Inr (stripHtmlTags decoded)
             else Inr decoded)
      else
        (case ps of
           PartsValue v \<Rightarrow> if truthy_v v then Inl TypeError else Inr []
         | PartsObject \<Rightarrow> Inl TypeError
         | PartsArray xs \<Rightarrow>
             (case find_l (js ''text/plain'') xs of
                Inl e \<Rightarrow> Inl e
              | Inr textPart \<Rightarrow>
                  if truthy_v (found_data_l textPart)
                  then decodeBase64Url_l (found_data_l textPart)
                  else
                    (case find_l (js ''text/html'') xs of
                       Inl e \<Rightarrow> Inl e
                     | Inr htmlPart \<Rightarrow>
                         if truthy_v (found_data_l htmlPart)
                         then map_sum id stripHtmlTags (decodeBase64Url_l (found_data_l htmlPart))
                         else extractBody_l_loop xs))))"
| "extractBody_l_loop [] = Inr []"
| "extractBody_l_loop (p # rest) =
     (case extractBody_l p of
        Inl e \<Rightarrow> Inl e
      | Inr found \<Rightarrow> if found \<noteq> [] then Inr found else extractBody_l_loop rest)"

text \<open>
  \<open>part.filename.length > 0\<close> on a truthy \<open>filename\<close>: a boolean or a number has no
  \<open>length\<close>, and \<open>undefined > 0\<close> is false. \<open>or_else v d\<close> is \<open>v ?? d\<close>, and \<open>truthy_parts\<close>
  the test \<open>if (part.parts)\<close>.
\<close>

definition length_positive :: "prim \<Rightarrow> bool" where
  "length_positive v = (case v of Text s \<Rightarrow> length s > 0 | _ \<Rightarrow> False)"

definition or_else :: "prim \<Rightarrow> prim \<Rightarrow> prim" where
  "or_else v d = (if nullish v then d else v)"

fun truthy_parts :: "loose_parts \<Rightarrow> bool" where
  "truthy_parts (PartsValue v) = truthy_v v"
| "truthy_parts PartsObject = True"
| "truthy_parts (PartsArray xs) = True"

text \<open>
  \<open>extractAttachments\<close> of services/gmail.ts. \<open>payload?.parts\<close> is \<open>undefined\<close> on a
  primitive root. The \<open>for ... of\<close> loop raises on a truthy \<open>parts\<close> that is not
  iterable (a boolean, a number, an object that is not an array); a non-empty string
  is iterable, and its elements are strings, with neither \<open>filename\<close> nor \<open>parts\<close>, so
  that nothing is pushed. In the loop, \<open>part.filename\<close> raises on an element that is
  \<open>null\<close> or \<open>undefined\<close>.
\<close>

fun extractAttachments_l :: "loose_part \<Rightarrow> js_error + descriptor_l list"
  and extractAttachments_l_loop ::
    "loose_part list \<Rightarrow> descriptor_l list \<Rightarrow> js_error + descriptor_l list" where
  "extractAttachments_l (Value v) = Inr []"
| "extractAttachments_l (Object mt fn b ps) =
     (case ps of
        PartsValue v \<Rightarrow>
          if \<not> truthy_v v then Inr []
          else (case v of Text s \<Rightarrow> Inr [] | _ \<Rightarrow> Inl TypeError)
      | PartsObject \<Rightarrow> Inl TypeError
      | PartsArray xs \<Rightarrow> extractAttachments_l_loop xs [])"
| "extractAttachments_l_loop [] attachments = Inr attachments"
| "extractAttachments_l_loop (Value v # rest) attachments =
     (if nullish v then Inl TypeError else extractAttachments_l_loop rest attachments)"
| "extractAttachments_l_loop (Object mt fn b ps # rest) attachments =
     (let pushed =
        (if truthy_v fn \<and> length_positive fn
         then attachments @
           [Descriptor fn (or_else mt (Text (js ''application/octet-stream'')))
              (or_else (body_size b) (Number 0)) Undefined]
         else attachments)
      in if truthy_parts ps
         then (case extractAttachments_l (Object mt fn b ps) of
                 Inl e \<Rightarrow> Inl e
               | Inr more \<Rightarrow> extractAttachments_l_loop rest (pushed @ more))
         else extractAttachments_l_loop rest pushed)"

text \<open>\<open>extractAttachments\<close> of the second implementation, with its test of
  \<open>part.body?.attachmentId\<close>.\<close>

fun extractAttachments_lw :: "loose_part \<Rightarrow> js_error + descriptor_l list"
  and extractAttachments_lw_loop ::
    "loose_part list \<Rightarrow> descriptor_l list \<Rightarrow> js_error + descriptor_l list" where
  "extractAttachments_lw (Value v) = Inr []"
| "extractAttachments_lw (Object mt fn b ps) =
     (case ps of
        PartsValue v \<Rightarrow>
          if \<not> truthy_v v then Inr []
          else (case v of Text s \<Rightarrow> Inr [] | _ \<Rightarrow> Inl TypeError)
      | PartsObject \<Rightarrow> Inl TypeError
      | PartsArray xs \<Rightarrow> extractAttachments_lw_loop xs [])"
| "extractAttachments_lw_loop [] attachments = Inr attachments"
| "extractAttachments_lw_loop (Value v # rest) attachments =
     (if nullish v then Inl TypeError else extractAttachments_lw_loop rest attachments)"
| "extractAttachments_lw_loop (Object mt fn b ps # rest) attachments =
     (let pushed =
        (if truthy_v fn \<and> length_positive fn \<and> truthy_v (body_attachmentId_l b)
         then attachments @
           [Descriptor fn (or_else mt (Text (js ''application/octet-stream'')))
              (or_else (body_size b) (Number 0)) (body_attachmentId_l b)]
         else attachments)
      in if truthy_parts ps
         then (case extractAttachments_lw (Object mt fn b ps) of
                 Inl e \<Rightarrow> Inl e
               | Inr more \<Rightarrow> extractAttachments_lw_loop rest (pushed @ more))
         else extractAttachments_lw_loop rest pushed)"

text \<open>
  The declared type. A string property is a string, \<open>null\<close> or missing, \<open>size\<close> is a
  number, \<open>null\<close> or missing, \<open>body\<close> is an object of that kind, \<open>null\<close> or missing, and
  \<open>parts\<close> is an array of parts, \<open>null\<close> or missing.
\<close>

fun opt_string :: "prim \<Rightarrow> bool" where
  "opt_string Undefined = True"
| "opt_string Null = True"
| "opt_string (Text s) = True"
| "opt_string _ = False"

fun opt_number :: "prim \<Rightarrow> bool" where
  "opt_number Undefined = True"
| "opt_number Null = True"
| "opt_number (Number n) = True"
| "opt_number _ = False"

fun well_typed_body :: "loose_body \<Rightarrow> bool" where
  "well_typed_body (BodyValue v) = nullish v"
| "well_typed_body (BodyObject a d s) = (opt_string a \<and> opt_string d \<and> opt_number s)"

fun well_typed :: "loose_part \<Rightarrow> bool" where
  "well_typed (Value v) = False"
| "well_typed (Object mt fn b ps) =
     (opt_string mt \<and> opt_string fn \<and> well_typed_body b \<and>
      (case ps of
         PartsValue v \<Rightarrow> nullish v
       | PartsObject \<Rightarrow> False
       | PartsArray xs \<Rightarrow> list_all well_typed xs))"

text \<open>
  A tree in which no part carries inline payload; a tree in which no part has a
  filename; and a tree in which no part below the root has one.
\<close>

fun payload_free :: "loose_part \<Rightarrow> bool" where
  "payload_free (Value v) = True"
| "payload_free (Object mt fn b ps) =
     (\<not> truthy_v (body_data b) \<and>
      (case ps of PartsArray xs \<Rightarrow> list_all payload_free xs | _ \<Rightarrow> True))"

fun unnamed :: "loose_part \<Rightarrow> bool" where
  "unnamed (Value v) = True"
| "unnamed (Object mt fn b ps) =
     (\<not> truthy_v fn \<and> (case ps of PartsArray xs \<Rightarrow> list_all unnamed xs | _ \<Rightarrow> True))"

fun unnamed_below :: "loose_part \<Rightarrow> bool" where
  "unnamed_below (Value v) = True"
| "unnamed_below (Object mt fn b ps) =
     (case ps of PartsArray xs \<Rightarrow> list_all unnamed xs | _ \<Rightarrow> True)"

text \<open>
  A tree of the data model as a loosely typed one: an absent field is a missing
  property. The decode side does not read \<open>headers\<close>.
\<close>

definition loosen_string :: "jsstring option \<Rightarrow> prim" where
  "loosen_string v = (case v of None \<Rightarrow> Undefined | Some s \<Rightarrow> Text s)"

definition loosen_number :: "int option \<Rightarrow> prim" where
  "loosen_number v = (case v of None \<Rightarrow> Undefined | Some n \<Rightarrow> Number n)"

definition loosen_body :: "body option \<Rightarrow> loose_body" where
  "loosen_body b =
     (case b of
        None \<Rightarrow> BodyValue Undefined
      | Some bd \<Rightarrow>
          BodyObject (loosen_string (attachmentId bd)) (loosen_string (data bd))
            (loosen_number (bsize bd)))"

fun loosen :: "part \<Rightarrow> loose_part" where
  "loosen (Part mt fn hs b ps) =
     Object (loosen_string mt) (loosen_string fn) (loosen_body b)
       (case ps of None \<Rightarrow> PartsValue Undefined | Some xs \<Rightarrow> PartsArray (map loosen xs))"

definition loosen_root :: "part option \<Rightarrow> loose_part" where
  "loosen_root root = (case root of None \<Rightarrow> Value Undefined | Some p \<Rightarrow> loosen p)"

definition loosen_attachment :: "attachment \<Rightarrow> descriptor_l" where
  "loosen_attachment a =
     Descriptor (Text (att_filename a)) (Text (att_mimeType a)) (Number (att_size a))
       (loosen_string (att_attachmentId a))"

section \<open>Header lookup\<close>

text \<open>
  \<open>toLowerCase\<close> follows the Unicode case mappings. The source only compares its
  result with the lower-case form of an ASCII name, so what matters is which code
  units have a lower-case form that holds an ASCII character: the letters A to Z, the
  Kelvin sign U+212A (which becomes \<open>k\<close>) and U+0130 (which becomes \<open>i\<close> followed by
  U+0307). These are mapped as JavaScript maps them; every other code unit is kept.
\<close>

definition lower_unit :: "jschar \<Rightarrow> jsstring" where
  "lower_unit c =
     (if 0x41 \<le> c \<and> c \<le> 0x5A then [c + 0x20]
      else if c = 0x212A then [0x6B]
      else if c = 0x0130 then [0x69, 0x0307]
      else [c])"

definition toLowerCase :: "jsstring \<Rightarrow> jsstring" where
  "toLowerCase s = concat (map lower_unit s)"

text \<open>
  \<open>getHeader\<close>, the same in both implementations:
  \<open>headers?.find((h) => h.name?.toLowerCase() === name.toLowerCase())?.value ?? ""\<close>.
  \<open>header_is name\<close> is the predicate handed to \<open>find\<close>.
\<close>

definition header_is :: "jsstring \<Rightarrow> header \<Rightarrow> bool" where
  "header_is name h =
     (case hname h of None \<Rightarrow> False | Some n \<Rightarrow> toLowerCase n = toLowerCase name)"

definition getHeader :: "header list option \<Rightarrow> jsstring \<Rightarrow> jsstring" where
  "getHeader hdrs name =
     (case hdrs of
        None \<Rightarrow> []
      | Some hs \<Rightarrow>
          (case find (header_is name) hs of
             None \<Rightarrow> []
           | Some h \<Rightarrow> (case hvalue h of None \<Rightarrow> [] | Some v \<Rightarrow> v)))"

section \<open>Message encoding\<close>

text \<open>
  The argument of \<open>buildRawMessage\<close>. The source's field \<open>body\<close> is \<open>bodyText\<close>
  here. The first implementation has no \<open>attachments\<close> field and never reads it.
\<close>

record options =
  to :: jsstring
  subject :: jsstring
  bodyText :: jsstring
  cc :: "jsstring option"
  bcc :: "jsstring option"
  inReplyTo :: "jsstring option"
  references :: "jsstring option"
  threadSubject :: "jsstring option"
  attachments :: "jsstring list option"

text \<open>\<open>lines.join("\r\n")\<close>: the elements with the separator between neighbours.\<close>

definition CRLF :: jsstring where
  "CRLF = [0x0D, 0x0A]"

fun join :: "jsstring \<Rightarrow> jsstring list \<Rightarrow> jsstring" where
  "join sep [] = []"
| "join sep [x] = x"
| "join sep (x # y # rest) = x @ sep @ join sep (y # rest)"

text \<open>
  The pieces of the header block: \<open>if (options.cc) lines.push(`Cc: ${options.cc}`)\<close>
  (and the same for \<open>bcc\<close>), the subject line with
  \<open>options.threadSubject ?? options.subject\<close>, and the two threading headers, pushed
  together when \<open>options.inReplyTo\<close> is truthy, with
  \<open>options.references ?? options.inReplyTo\<close>.
\<close>

definition push_if :: "jsstring \<Rightarrow> jsstring option \<Rightarrow> jsstring list \<Rightarrow> jsstring list" where
  "push_if label field lines =
     (case field of
        None \<Rightarrow> lines
      | Some v \<Rightarrow> if v \<noteq> [] then lines @ [label @ v] else lines)"

definition subjectLine :: "options \<Rightarrow> jsstring" where
  "subjectLine opts =
     js ''Subject: '' @ (case threadSubject opts of Some t \<Rightarrow> t | None \<Rightarrow> subject opts)"

definition push_threading :: "options \<Rightarrow> jsstring list \<Rightarrow> jsstring list" where
  "push_threading opts lines =
     (case inReplyTo opts of
        None \<Rightarrow> lines
      | Some m \<Rightarrow>
          if m \<noteq> [] then
            lines @ [js ''In-Reply-To: '' @ m,
                     js ''References: '' @ (case references opts of Some r \<Rightarrow> r | None \<Rightarrow> m)]
          else lines)"

text \<open>
  The array \<open>lines\<close> of a message without attachments, one \<open>let\<close> per statement
  of the source. The statements are the same in the first implementation and in the
  branch \<open>!hasAttachments\<close> of the second.
\<close>

definition plainLines :: "options \<Rightarrow> jsstring list" where
  "plainLines opts =
     (let lines0 = [];
          lines1 = lines0 @ [js ''To: '' @ to opts];
          lines2 = push_if (js ''Cc: '') (cc opts) lines1;
          lines3 = push_if (js ''Bcc: '') (bcc opts) lines2;
          lines4 = lines3 @ [subjectLine opts];
          lines5 = lines4 @ [js ''Content-Type: text/plain; charset=utf-8''];
          lines6 = push_threading opts lines5;
          lines7 = lines6 @ [[]];
          lines8 = lines7 @ [bodyText opts]
      in lines8)"

text \<open>\<open>buildRawMessage\<close> of services/gmail.ts.\<close>

definition buildRawMessage :: "options \<Rightarrow> jsstring" where
  "buildRawMessage opts = encodeBase64Url (join CRLF (plainLines opts))"

text \<open>
  \<open>path.basename\<close> and \<open>path.extname\<close> (POSIX): trailing slashes are dropped and the
  last component is taken; its extension starts at its last dot, and is empty when
  there is no dot, when the last dot is the component's first character, or when the
  component is \<open>..\<close>.
\<close>

definition basename :: "jsstring \<Rightarrow> jsstring" where
  "basename p = rev (takeWhile (\<lambda>c. c \<noteq> 0x2F) (dropWhile (\<lambda>c. c = 0x2F) (rev p)))"

definition extname :: "jsstring \<Rightarrow> jsstring" where
  "extname p =
     (let comp = basename p;
          startDot = length comp - length (takeWhile (\<lambda>c. c \<noteq> 0x2E) (rev comp)) - 1
      in if 0x2E \<notin> set comp \<or> startDot = 0 \<or> comp = js ''..'' then []
         else drop startDot comp)"

text \<open>\<open>guessMimeType\<close> and its table. No key of the table is inherited from
  \<open>Object.prototype\<close>: an extension is empty or starts with a dot.\<close>

definition mime_types :: "(jsstring \<times> jsstring) list" where
  "mime_types =
     [(js ''.pdf'', js ''application/pdf''),
      (js ''.zip'', js ''application/zip''),
      (js ''.gz'', js ''application/gzip''),
      (js ''.tar'', js ''application/x-tar''),
      (js ''.doc'', js ''application/msword''),
      (js ''.docx'',
       js ''application/vnd.openxmlformats-officedocument.wordprocessingml.document''),
      (js ''.xls'', js ''application/vnd.ms-excel''),
      (js ''.xlsx'', js ''application/vnd.openxmlformats-officedocument.spreadsheetml.sheet''),
      (js ''.ppt'', js ''application/vnd.ms-powerpoint''),
      (js ''.pptx'',
       js ''application/vnd.openxmlformats-officedocument.presentationml.presentation''),
      (js ''.png'', js ''image/png''),
      (js ''.jpg'', js ''image/jpeg''),
      (js ''.jpeg'', js ''image/jpeg''),
      (js ''.gif'', js ''image/gif''),
      (js ''.svg'', js ''image/svg+xml''),
      (js ''.webp'', js ''image/webp''),
      (js ''.txt'', js ''text/plain''),
      (js ''.csv'', js ''text/csv''),
      (js ''.html'', js ''text/html''),
      (js ''.json'', js ''application/json''),
      (js ''.xml'', js ''application/xml''),
      (js ''.mp3'', js ''audio/mpeg''),
      (js ''.mp4'', js ''video/mp4''),
      (js ''.wav'', js ''audio/wav'')]"

definition guessMimeType :: "jsstring \<Rightarrow> jsstring" where
  "guessMimeType fname =
     (let ext = toLowerCase (extname fname) in
      case map_of mime_types ext of
        Some t \<Rightarrow> t
      | None \<Rightarrow> js ''application/octet-stream'')"

text \<open>
  The loop \<open>for (let i = 0; i < encoded.length; i += 76)
  lines.push(encoded.slice(i, i + 76))\<close>.
\<close>

function push_chunks :: "jsstring \<Rightarrow> nat \<Rightarrow> jsstring list \<Rightarrow> jsstring list" where
  "push_chunks encoded i lines =
     (if i < length encoded
      then push_chunks encoded (i + 76) (lines @ [take 76 (drop i encoded)])
      else lines)"
  by pat_completeness auto
termination
  by (relation "measure (\<lambda>(encoded, i, lines). length encoded - i)") auto

declare push_chunks.simps [simp del]

text \<open>
  The loop over \<open>options.attachments\<close>. The file system is a map from paths to
  contents: \<open>fs.readFileSync\<close> throws where the map has no entry, and the exception
  leaves \<open>buildRawMessage\<close>.
\<close>

datatype io_error = ReadError jsstring

fun attach_loop ::
  "(jsstring \<Rightarrow> byte list option) \<Rightarrow> jsstring \<Rightarrow> jsstring list \<Rightarrow> jsstring list \<Rightarrow>
   io_error + jsstring list" where
  "attach_loop fs boundary [] lines = Inr lines"
| "attach_loop fs boundary (filePath # rest) lines =
     (let filename = basename filePath in
      case fs filePath of
        None \<Rightarrow> Inl (ReadError filePath)
      | Some content \<Rightarrow>
          (let encoded = base64_encode base64_alphabet True content;
               mime = guessMimeType filename;
               lines1 = lines @
                 [js ''--'' @ boundary,
                  js ''Content-Type: '' @ mime @ js ''; name='' @ [0x22] @ filename @ [0x22],
                  js ''Content-Transfer-Encoding: base64'',
                  js ''Content-Disposition: attachment; filename='' @ [0x22] @ filename @ [0x22],
                  []];
               lines2 = push_chunks encoded 0 lines1;
               lines3 = lines2 @ [[]]
           in attach_loop fs boundary rest lines3))"

text \<open>
  The lines of a multipart message up to the end of the text body part, one \<open>let\<close>
  per statement.
\<close>

definition multipartLines :: "jsstring \<Rightarrow> options \<Rightarrow> jsstring list" where
  "multipartLines boundary opts =
     (let lines0 = [];
          lines1 = lines0 @ [js ''To: '' @ to opts];
          lines2 = push_if (js ''Cc: '') (cc opts) lines1;
          lines3 = push_if (js ''Bcc: '') (bcc opts) lines2;
          lines4 = lines3 @ [subjectLine opts];
          lines5 = lines4 @ [js ''MIME-Version: 1.0''];
          lines6 = push_threading opts lines5;
          lines7 = lines6 @
            [js ''Content-Type: multipart/mixed; boundary='' @ [0x22] @ boundary @ [0x22]];
          lines8 = lines7 @ [[]];
          lines9 = lines8 @ [js ''--'' @ boundary];
          lines10 = lines9 @ [js ''Content-Type: text/plain; charset=utf-8''];
          lines11 = lines10 @ [[]];
          lines12 = lines11 @ [bodyText opts];
          lines13 = lines12 @ [[]]
      in lines13)"

text \<open>
  \<open>buildRawMessage\<close> of the second implementation. The boundary is
  \<open>`boundary_${Date.now()}_${Math.random().toString(36).slice(2)}`\<close>; the two
  interpolated strings are inputs of the model (\<open>now\<close> and \<open>random\<close>).
\<close>

definition buildRawMessage_w ::
  "jsstring \<Rightarrow> jsstring \<Rightarrow> (jsstring \<Rightarrow> byte list option) \<Rightarrow> options \<Rightarrow> io_error + jsstring" where
  "buildRawMessage_w now random fs opts =
     (case attachments opts of
        None \<Rightarrow> Inr (encodeBase64Url (join CRLF (plainLines opts)))
      | Some paths \<Rightarrow>
          if \<not> length paths > 0 then Inr (encodeBase64Url (join CRLF (plainLines opts)))
          else
            (let boundary = js ''boundary_'' @ now @ js ''_'' @ random in
             case attach_loop fs boundary paths (multipartLines boundary opts) of
               Inl e \<Rightarrow> Inl e
             | Inr lines \<Rightarrow>
                 Inr (encodeBase64Url (join CRLF (lines @ [js ''--'' @ boundary @ js ''--''])))))"

section \<open>Reply threading\<close>

text \<open>
  \<open>replyToMessage\<close> fetches the original message and hands \<open>buildRawMessage\<close> the
  options below, computed from the original's headers. The first implementation has no
  attachments (\<open>paths\<close> is \<open>None\<close>).
\<close>

definition startsWith :: "jsstring \<Rightarrow> jsstring \<Rightarrow> bool" where
  "startsWith s w = (take (length w) s = w)"

definition replyOptions :: "header list option \<Rightarrow> jsstring \<Rightarrow> jsstring list option \<Rightarrow> options" where
  "replyOptions hdrs text paths =
     (let originalMessageId = getHeader hdrs (js ''Message-ID'');
          refs = getHeader hdrs (js ''References'');
          subj = getHeader hdrs (js ''Subject'');
          sender = getHeader hdrs (js ''From'')
      in \<lparr>to = sender, subject = subj, bodyText = text, cc = None, bcc = None,
          inReplyTo = Some originalMessageId,
          references = Some (if refs \<noteq> [] then refs @ js '' '' @ originalMessageId
                             else originalMessageId),
          threadSubject = Some (if startsWith subj (js ''Re:'') then subj
                                else js ''Re: '' @ subj),
          attachments = paths\<rparr>)"

definition replyToMessage_raw :: "header list option \<Rightarrow> jsstring \<Rightarrow> jsstring" where
  "replyToMessage_raw hdrs text = buildRawMessage (replyOptions hdrs text None)"

definition replyToMessage_raw_w ::
  "jsstring \<Rightarrow> jsstring \<Rightarrow> (jsstring \<Rightarrow> byte list option) \<Rightarrow> header list option \<Rightarrow>
   jsstring \<Rightarrow> jsstring list option \<Rightarrow> io_error + jsstring" where
  "replyToMessage_raw_w now random fs hdrs text paths =
     buildRawMessage_w now random fs (replyOptions hdrs text paths)"

section \<open>The wire format in the specification's words\<close>

text \<open>
  The header block of a message without attachments as the specification lists it:
  \<open>To\<close>, \<open>Cc\<close> and \<open>Bcc\<close> when given, \<open>Subject\<close> (the thread subject when set,
  else the subject), the content type, then \<open>In-Reply-To\<close> and \<open>References\<close> when
  \<open>inReplyTo\<close> is given (\<open>References\<close> holding \<open>references\<close> when set, else
  \<open>inReplyTo\<close>). A field is given when it is present and not the empty string.
\<close>

definition optional_line :: "jsstring \<Rightarrow> jsstring option \<Rightarrow> jsstring list" where
  "optional_line label field =
     (case field of None \<Rightarrow> [] | Some v \<Rightarrow> if v \<noteq> [] then [label @ v] else [])"

definition spec_threading :: "options \<Rightarrow> jsstring list" where
  "spec_threading opts =
     (case inReplyTo opts of
        None \<Rightarrow> []
      | Some m \<Rightarrow>
          if m \<noteq> [] then
            [js ''In-Reply-To: '' @ m,
             js ''References: '' @ (case references opts of Some r \<Rightarrow> r | None \<Rightarrow> m)]
          else [])"

definition spec_headers :: "options \<Rightarrow> jsstring list" where
  "spec_headers opts =
     [js ''To: '' @ to opts] @
     optional_line (js ''Cc: '') (cc opts) @
     optional_line (js ''Bcc: '') (bcc opts) @
     [js ''Subject: '' @ (case threadSubject opts of Some t \<Rightarrow> t | None \<Rightarrow> subject opts),
      js ''Content-Type: text/plain; charset=utf-8''] @
     spec_threading opts"

text \<open>
  The header block of a multipart message: the same address and subject lines, the
  MIME version, the threading headers, and the multipart content type with the
  boundary in double quotes.
\<close>

definition spec_multipart_headers :: "jsstring \<Rightarrow> options \<Rightarrow> jsstring list" where
  "spec_multipart_headers boundary opts =
     [js ''To: '' @ to opts] @
     optional_line (js ''Cc: '') (cc opts) @
     optional_line (js ''Bcc: '') (bcc opts) @
     [js ''Subject: '' @ (case threadSubject opts of Some t \<Rightarrow> t | None \<Rightarrow> subject opts),
      js ''MIME-Version: 1.0''] @
     spec_threading opts @
     [js ''Content-Type: multipart/mixed; boundary='' @ [0x22] @ boundary @ [0x22]]"

section \<open>Properties of the text-safe codec\<close>

subsection \<open>Base64 round trip on buffers\<close>

lemma byte_eqI8:
  assumes "\<And>n. n \<in> {0, 1, 2, 3, 4, 5, 6, 7} \<Longrightarrow> bit x n = bit y n"
  shows "x = (y :: byte)"
proof (rule bit_word_eqI)
  fix n
  assume "n < LENGTH(8)"
  then have "n \<in> {0, 1, 2, 3, 4, 5, 6, 7}" by auto
  then show "bit x n = bit y n" by (rule assms)
qed

lemma Suc2: "Suc (Suc 0) = 2"
  by simp

lemma Suc3: "Suc (Suc (Suc 0)) = 3"
  by simp

lemma byte_group1:
  "push_bit 2 (drop_bit 2 a AND 0x3F) OR
   drop_bit 4 ((push_bit 4 (a AND 3) OR drop_bit 4 b) AND 0x30) = (a :: byte)"
  by (rule byte_eqI8) (auto simp: bit_simps Suc2 Suc3)

lemma byte_group2:
  "push_bit 4 ((push_bit 4 (a AND 3) OR drop_bit 4 b) AND 0x0F) OR
   drop_bit 2 ((push_bit 2 (b AND 15) OR drop_bit 6 c) AND 0x3C) = (b :: byte)"
  by (rule byte_eqI8) (auto simp: bit_simps Suc2 Suc3)

lemma byte_group3:
  "push_bit 6 ((push_bit 2 (b AND 15) OR drop_bit 6 c) AND 0x03) OR
   ((c AND 63) AND 0x3F) = (c :: byte)"
  by (rule byte_eqI8) (auto simp: bit_simps Suc2 Suc3)

lemma byte_group1_last:
  "push_bit 2 (drop_bit 2 a AND 0x3F) OR drop_bit 4 (push_bit 4 (a AND 3) AND 0x30) =
   (a :: byte)"
  by (rule byte_eqI8) (auto simp: bit_simps Suc2 Suc3)

lemma byte_group2_last:
  "push_bit 4 ((push_bit 4 (a AND 3) OR drop_bit 4 b) AND 0x0F) OR
   drop_bit 2 (push_bit 2 (b AND 15) AND 0x3C) = (b :: byte)"
  by (rule byte_eqI8) (auto simp: bit_simps Suc2 Suc3)

lemma sextet_boundI:
  assumes "\<not> bit x 6" "\<not> bit x 7"
  shows "unat (x :: byte) < 64"
proof -
  have "x = take_bit 6 x"
    by (rule byte_eqI8) (use assms in \<open>auto simp: bit_simps\<close>)
  then have "unat x = unat (take_bit 6 x)" by simp
  also have "\<dots> < 2 ^ 6"
    unfolding unsigned_take_bit_eq by (rule take_bit_nat_less_exp)
  finally show ?thesis by simp
qed

lemma sextet_bounds:
  "unat (drop_bit 2 (a :: byte)) < 64"
  "unat (push_bit 4 (a AND 3) OR drop_bit 4 (b :: byte)) < 64"
  "unat (push_bit 2 (b AND 15) OR drop_bit 6 (c :: byte)) < 64"
  "unat (c AND 63) < 64"
  "unat (push_bit 4 (a AND 3)) < 64"
  "unat (push_bit 2 (b AND 15)) < 64"
  by (rule sextet_boundI; auto simp: bit_simps dest: bit_imp_le_length)+

lemma unbase64_alphabet:
  assumes "\<And>n. n < 64 \<Longrightarrow> unbase64 (ucast (al ! n)) = Some (of_nat n)"
    and "unat x < 64"
  shows "unbase64 (ucast (al ! unat x)) = Some x"
  using assms(1) [OF assms(2)] by simp

lemma unbase64_pad: "unbase64 0x3D = None"
  by (simp add: unbase64_def)

lemma js_pad:
  "map ucast (js ''=='') = [0x3D, 0x3D :: byte]"
  "map ucast (js ''='') = [0x3D :: byte]"
  by (simp_all add: js_def)

lemmas b64_unfold = base64_encode.simps list.map append.simps base64_sextets.simps
  option.case sextets_bytes.simps if_True if_False refl unbase64_pad js_pad map_append

lemma base64_roundtrip_bytes:
  assumes "\<And>n. n < 64 \<Longrightarrow> unbase64 (ucast (al ! n)) = Some (of_nat n)"
  shows "base64_decode (base64_encode al pad bs) = bs"
  unfolding base64_decode_def using assms
proof (induction al pad bs rule: base64_encode.induct)
  case (1 al pad)
  show ?case by simp
next
  case (2 al pad a)
  show ?case
    by (cases pad)
      (simp_all only: b64_unfold unbase64_alphabet [of al, OF 2] sextet_bounds
         byte_group1_last)
next
  case (3 al pad a b)
  show ?case
    by (cases pad)
      (simp_all only: b64_unfold unbase64_alphabet [of al, OF 3] sextet_bounds
         byte_group1 byte_group2_last)
next
  case (4 al pad a b c rest)
  have "sextets_bytes (base64_sextets (map ucast (base64_encode al pad rest))) = rest"
    using 4 by blast
  then show ?case
    by (simp only: b64_unfold unbase64_alphabet [of al, OF 4(2)] sextet_bounds
         byte_group1 byte_group2 byte_group3)
qed

lemma alphabet_url_exhaust:
  "\<forall>n \<in> set [0..<64]. unbase64 (ucast (base64url_alphabet ! n)) = Some (of_nat n)"
  by code_simp

lemma alphabet_std_exhaust:
  "\<forall>n \<in> set [0..<64]. unbase64 (ucast (base64_alphabet ! n)) = Some (of_nat n)"
  by code_simp

lemma base64url_roundtrip:
  "base64_decode (base64_encode base64url_alphabet pad bs) = bs"
  by (rule base64_roundtrip_bytes) (use alphabet_url_exhaust in simp)

lemma base64_std_roundtrip:
  "base64_decode (base64_encode base64_alphabet pad bs) = bs"
  by (rule base64_roundtrip_bytes) (use alphabet_std_exhaust in simp)

subsection \<open>UTF-8 round trip on strings of code units below 256\<close>

lemma utf8_byte_exhaust:
  "\<forall>n \<in> set [0..<256].
     (let c = (of_nat n :: jschar); l = (0xC0 OR ucast (drop_bit 6 c) :: byte);
          t = (0x80 OR ucast (c AND 0x3F) :: byte) in
      if c < 0x80 then utf8_lead (ucast c) = ([c], utf8_start)
      else c < 0x800 \<and> utf8_lead l = ([], (ucast (l AND 0x1F), 1, 0x80, 0xBF)) \<and>
           \<not> (t < 0x80 \<or> 0xBF < t) \<and>
           code_units (push_bit 6 (ucast (l AND 0x1F)) OR ucast (t AND 0x3F)) = [c])"
  by code_simp

lemma utf8_byte_facts:
  fixes b :: byte
  defines "c \<equiv> (ucast b :: jschar)"
  defines "l \<equiv> (0xC0 OR ucast (drop_bit 6 c) :: byte)"
  defines "t \<equiv> (0x80 OR ucast (c AND 0x3F) :: byte)"
  shows "if c < 0x80 then utf8_lead (ucast c) = ([c], utf8_start)
      else c < 0x800 \<and> utf8_lead l = ([], (ucast (l AND 0x1F), 1, 0x80, 0xBF)) \<and>
           \<not> (t < 0x80 \<or> 0xBF < t) \<and>
           code_units (push_bit 6 (ucast (l AND 0x1F)) OR ucast (t AND 0x3F)) = [c]"
proof -
  have "unat b < 256"
    using unsigned_less [of b] by simp
  then have "unat b \<in> set [0..<256]" by simp
  moreover have "(of_nat (unat b) :: jschar) = c"
    by (simp add: c_def)
  ultimately show ?thesis
    using utf8_byte_exhaust unfolding l_def t_def by (auto simp: Let_def simp del: set_upt)
qed

lemma utf8_roundtrip_step:
  "utf8_decode_from utf8_start (utf8_encode (ucast (b :: byte) # cs)) =
     ucast b # utf8_decode_from utf8_start (utf8_encode cs)"
proof (cases "(ucast b :: jschar) < 0x80")
  case True
  with utf8_byte_facts [of b] show ?thesis
    by (simp add: utf8_start_def)
next
  case False
  with utf8_byte_facts [of b] show ?thesis
    by (simp add: utf8_start_def)
qed

lemma utf8_roundtrip_binary:
  "utf8_decode (utf8_encode (map ucast (bs :: byte list))) = map ucast bs"
  unfolding utf8_decode_def
  by (induction bs) (simp_all only: list.map utf8_roundtrip_step, simp add: utf8_start_def)

text \<open>
  Claim C3. The URL-safe base64 codec round-trips exactly on every byte sequence, the
  empty one included and whatever byte values it holds: decoding the base64url text of
  a buffer gives the buffer back, and \<open>decodeBase64Url (encodeBase64Url b)\<close> is \<open>b\<close>
  for every sequence \<open>b\<close> of byte values 0 to 255, handed to the two helpers as a
  string (one code unit per byte).
\<close>

theorem base64url_codec_roundtrip:
  "base64_decode (base64_encode base64url_alphabet False bs) = bs \<and>
   decodeBase64Url (encodeBase64Url (map ucast bs)) = map ucast bs"
  by (simp add: decodeBase64Url_def encodeBase64Url_def base64url_roundtrip
      utf8_roundtrip_binary)

subsection \<open>Decoding a corrupt input\<close>

lemma sextets_cleaned:
  "base64_sextets (map ucast s) =
   base64_sextets (map ucast (filter accepted (takeWhile (\<lambda>c. \<not> is_pad c) s)))"
proof (induction s)
  case Nil
  show ?case by simp
next
  case (Cons c s)
  show ?case
  proof (cases "unbase64 (ucast c)")
    case None
    then show ?thesis
      using Cons by (simp add: accepted_def is_pad_def)
  next
    case (Some v)
    then have "(ucast c :: byte) \<noteq> 0x3D"
      using unbase64_pad by auto
    with Some show ?thesis
      using Cons by (simp add: accepted_def is_pad_def)
  qed
qed

text \<open>
  Claim C4, as the code has it. \<open>decodeBase64Url\<close> has no error result: on every
  input it returns a string, namely the decoding of the input's accepted characters
  that come before the first \<open>=\<close>. Every other character is skipped without notice.
\<close>

theorem decode_ignores_corruption:
  "decodeBase64Url s = decodeBase64Url (filter accepted (takeWhile (\<lambda>c. \<not> is_pad c) s))"
  unfolding decodeBase64Url_def base64_decode_def
  using sextets_cleaned [of s] by simp

text \<open>
  Claim C4 as stated fails. \<open>SGVsbG8gd29ybGQ\<close> is the encoding of \<open>Hello world\<close>.
  With its eighth character replaced by \<open>=\<close> the input is corrupt, and the decoder
  returns the truncated text \<open>Hello\<close>; with its fifth character replaced by \<open>!\<close> it
  returns garbled text (\<open>Hel\<close>, then control characters and replacement characters).
\<close>

theorem decode_corrupt_counterexample:
  "decodeBase64Url (js ''SGVsbG8gd29ybGQ'') = js ''Hello world'' \<and>
   \<not> is_base64url (js ''SGVsbG8=d29ybGQ'') \<and>
   decodeBase64Url (js ''SGVsbG8=d29ybGQ'') = js ''Hello'' \<and>
   \<not> is_base64url (js ''SGVs!G8gd29ybGQ'') \<and>
   decodeBase64Url (js ''SGVs!G8gd29ybGQ'') =
     js ''Hel'' @ [0x1B, 0xFFFD, 0x1D, 0xFFFD, 0x071B, 0x19]"
  by code_simp

section \<open>Properties of the attachment enumeration\<close>

lemma descendants_no_parts: "parts p = None \<Longrightarrow> descendants p = []"
  by (cases p) simp

lemma push_named:
  "(case filename p of
      Some f \<Rightarrow>
        if f \<noteq> [] \<and> length f > 0
        then acc @ [Attachment f (mimeType_or_default p) (size_or_zero p) None]
        else acc
    | None \<Rightarrow> acc) = (if named p then acc @ [descriptor p] else acc)"
  by (simp add: named_def truthy_def descriptor_def split: option.splits)

lemma push_named_referenced:
  "(case filename p of
      Some f \<Rightarrow>
        if f \<noteq> [] \<and> length f > 0 \<and> truthy (body_attachmentId p)
        then acc @ [Attachment f (mimeType_or_default p) (size_or_zero p) (body_attachmentId p)]
        else acc
    | None \<Rightarrow> acc) = (if named p \<and> referenced p then acc @ [descriptor_w p] else acc)"
  by (simp add: named_def referenced_def truthy_def descriptor_w_def split: option.splits)

lemma extractAttachments_pre_order:
  "extractAttachments po =
     (case po of None \<Rightarrow> [] | Some p \<Rightarrow> map descriptor (filter named (descendants p)))"
  "extractAttachments_loop ps acc =
     acc @ map descriptor (filter named (concat (map (\<lambda>c. c # descendants c) ps)))"
proof (induction po and ps acc rule: extractAttachments_extractAttachments_loop.induct)
  case (5 p rest attachments)
  show ?case
  proof (cases "parts p")
    case None
    then show ?thesis
      using 5(2) by (simp add: Let_def push_named descendants_no_parts)
  next
    case (Some cs)
    then show ?thesis
      using 5 by (simp add: Let_def push_named)
  qed
qed simp_all

lemma extractAttachments_w_pre_order:
  "extractAttachments_w po =
     (case po of None \<Rightarrow> []
      | Some p \<Rightarrow> map descriptor_w (filter (\<lambda>q. named q \<and> referenced q) (descendants p)))"
  "extractAttachments_w_loop ps acc =
     acc @ map descriptor_w (filter (\<lambda>q. named q \<and> referenced q)
       (concat (map (\<lambda>c. c # descendants c) ps)))"
proof (induction po and ps acc rule: extractAttachments_w_extractAttachments_w_loop.induct)
  case (5 p rest attachments)
  show ?case
  proof (cases "parts p")
    case None
    then show ?thesis
      using 5(2) by (simp add: Let_def push_named_referenced descendants_no_parts)
  next
    case (Some cs)
    then show ?thesis
      using 5 by (simp add: Let_def push_named_referenced)
  qed
qed simp_all

text \<open>
  Claim C2, as the code has it. Both implementations walk the tree in pre-order
  (parent before children, siblings left to right) at every depth and regardless of
  the MIME type, but they start at the children of the root: the root part itself is
  never listed. The first implementation returns one descriptor, without a reference,
  for every part strictly below the root that has a non-empty filename. The second
  returns one descriptor for every part strictly below the root that has a non-empty
  filename and a non-empty attachment reference; a named part without a reference is
  left out. An absent root gives the empty list.
\<close>

theorem listAttachments_descendants_pre_order:
  "extractAttachments None = [] \<and> extractAttachments_w None = [] \<and>
   extractAttachments (Some p) = map descriptor (filter named (descendants p)) \<and>
   extractAttachments_w (Some p) =
     map descriptor_w (filter (\<lambda>q. named q \<and> referenced q) (descendants p))"
  by (simp add: extractAttachments_pre_order(1) extractAttachments_w_pre_order(1))

text \<open>
  Claim C2 as stated fails. A root part with the filename \<open>a.txt\<close> and no children is
  a named part of the tree, yet neither implementation lists it; and a child with the
  filename \<open>a.txt\<close> and no attachment reference is listed by the first implementation
  but dropped by the second.
\<close>

theorem listAttachments_counterexample:
  "spec_listAttachments (Part None (Some (js ''a.txt'')) None None None) =
     [Attachment (js ''a.txt'') (js ''application/octet-stream'') 0 None] \<and>
   extractAttachments (Some (Part None (Some (js ''a.txt'')) None None None)) = [] \<and>
   extractAttachments_w (Some (Part None (Some (js ''a.txt'')) None None None)) = [] \<and>
   spec_listAttachments
     (Part None None None None (Some [Part None (Some (js ''a.txt'')) None None None])) =
     [Attachment (js ''a.txt'') (js ''application/octet-stream'') 0 None] \<and>
   extractAttachments_w
     (Some (Part None None None None (Some [Part None (Some (js ''a.txt'')) None None None])))
     = []"
  by (simp add: spec_listAttachments_def named_def truthy_def descriptor_w_def
      mimeType_or_default_def size_or_zero_def body_attachmentId_def js_def)

section \<open>Properties of body decoding\<close>

lemma find_first:
  "\<lbrakk>xs = pre @ t # post; \<forall>p \<in> set pre. \<not> P p; P t\<rbrakk> \<Longrightarrow> find P xs = Some t"
  by (induction pre arbitrary: xs) auto

lemma plain_not_html: "js ''text/html'' \<noteq> js ''text/plain''"
  by (simp add: js_def)

lemma extractBody_payload:
  "inline_data b = Some d \<Longrightarrow>
   extractBody (Some (Part mt fn hs b ps)) =
     (if mt = Some (js ''text/html'') then stripHtmlTags (decodeBase64Url d)
      else decodeBase64Url d)"
  by (simp add: Let_def plain_not_html)

lemma extractBody_plain_child:
  "\<lbrakk>inline_data b = None;
    found_data (find (\<lambda>p. mimeType p = Some (js ''text/plain'')) xs) = Some d\<rbrakk>
   \<Longrightarrow> extractBody (Some (Part mt fn hs b (Some xs))) = decodeBase64Url d"
  by simp

lemma extractBody_html_child:
  "\<lbrakk>inline_data b = None;
    found_data (find (\<lambda>p. mimeType p = Some (js ''text/plain'')) xs) = None;
    found_data (find (\<lambda>p. mimeType p = Some (js ''text/html'')) xs) = Some d\<rbrakk>
   \<Longrightarrow> extractBody (Some (Part mt fn hs b (Some xs))) = stripHtmlTags (decodeBase64Url d)"
  by simp

lemma extractBody_loop_first:
  "extractBody_loop xs =
     (case find (\<lambda>p. extractBody (Some p) \<noteq> []) xs of
        None \<Rightarrow> [] | Some p \<Rightarrow> extractBody (Some p))"
  by (induction xs) (simp_all add: Let_def)

lemma extractBody_descend:
  "\<lbrakk>inline_data b = None;
    found_data (find (\<lambda>p. mimeType p = Some (js ''text/plain'')) xs) = None;
    found_data (find (\<lambda>p. mimeType p = Some (js ''text/html'')) xs) = None\<rbrakk>
   \<Longrightarrow> extractBody (Some (Part mt fn hs b (Some xs))) =
        (case find (\<lambda>p. extractBody (Some p) \<noteq> []) xs of
           None \<Rightarrow> [] | Some p \<Rightarrow> extractBody (Some p))"
  by (simp add: extractBody_loop_first)

lemma example_html_text: "stripHtmlTags (decodeBase64Url (js ''PGI-SGk8L2I-'')) = js ''Hi''"
  by code_simp

lemma example_plain_text: "decodeBase64Url (js ''SGVsbG8'') = js ''Hello''"
  by code_simp

text \<open>
  Claim C10. A part that carries inline payload is decoded by the leaf rule, whatever
  its children are: the payload is decoded, and degraded from HTML exactly when the
  MIME type is \<open>text/html\<close>. The children \<open>ps\<close> do not occur in the result.
\<close>

theorem decodeBody_payload_precedence:
  "inline_data b = Some d \<Longrightarrow>
   extractBody (Some (Part mt fn hs b ps)) =
     (if mt = Some (js ''text/html'') then stripHtmlTags (decodeBase64Url d)
      else decodeBase64Url d)"
  by (rule extractBody_payload)

theorem decodeBody_payload_precedence_witness:
  "inline_data (Some (Body None (Some (js ''PGI-SGk8L2I-'')) None)) = Some (js ''PGI-SGk8L2I-'') \<and>
   extractBody (Some (Part (Some (js ''text/html'')) None None
     (Some (Body None (Some (js ''PGI-SGk8L2I-'')) None))
     (Some [Part (Some (js ''text/plain'')) None None
              (Some (Body None (Some (js ''SGVsbG8'')) None)) None]))) = js ''Hi''"
proof -
  have h: "inline_data (Some (Body None (Some (js ''PGI-SGk8L2I-'')) None)) =
      Some (js ''PGI-SGk8L2I-'')"
    by (simp add: inline_data_def js_def)
  show ?thesis
    using h decodeBody_payload_precedence [OF h, of "Some (js ''text/html'')" None None
        "Some [Part (Some (js ''text/plain'')) None None
              (Some (Body None (Some (js ''SGVsbG8'')) None)) None]"]
    by (simp add: example_html_text)
qed

text \<open>
  Claim C1, as the code has it. For a root without inline payload whose children are
  \<open>xs\<close>: if the first child of type \<open>text/plain\<close> carries inline payload, the result
  is that payload decoded; otherwise, if the first child of type \<open>text/html\<close> carries
  inline payload, the result is that payload decoded and degraded; otherwise the
  result is the first non-empty result of decoding a child, in order, and the empty
  string if there is none. A \<open>text/plain\<close> or \<open>text/html\<close> child behind the first of
  its type is reached only in that last pass.
\<close>

theorem decodeBody_children:
  "inline_data b = None \<longrightarrow>
   (\<forall>pre t post d.
      xs = pre @ t # post \<and> (\<forall>p \<in> set pre. mimeType p \<noteq> Some (js ''text/plain'')) \<and>
      mimeType t = Some (js ''text/plain'') \<and> inline_data (body t) = Some d \<longrightarrow>
      extractBody (Some (Part mt fn hs b (Some xs))) = decodeBase64Url d) \<and>
   (\<forall>pre h post d.
      found_data (find (\<lambda>p. mimeType p = Some (js ''text/plain'')) xs) = None \<and>
      xs = pre @ h # post \<and> (\<forall>p \<in> set pre. mimeType p \<noteq> Some (js ''text/html'')) \<and>
      mimeType h = Some (js ''text/html'') \<and> inline_data (body h) = Some d \<longrightarrow>
      extractBody (Some (Part mt fn hs b (Some xs))) = stripHtmlTags (decodeBase64Url d)) \<and>
   (found_data (find (\<lambda>p. mimeType p = Some (js ''text/plain'')) xs) = None \<and>
    found_data (find (\<lambda>p. mimeType p = Some (js ''text/html'')) xs) = None \<longrightarrow>
      extractBody (Some (Part mt fn hs b (Some xs))) =
        (case find (\<lambda>p. extractBody (Some p) \<noteq> []) xs of
           None \<Rightarrow> [] | Some p \<Rightarrow> extractBody (Some p)))"
proof (intro impI conjI allI)
  fix pre t post d
  assume b: "inline_data b = None"
    and h: "xs = pre @ t # post \<and> (\<forall>p \<in> set pre. mimeType p \<noteq> Some (js ''text/plain'')) \<and>
      mimeType t = Some (js ''text/plain'') \<and> inline_data (body t) = Some d"
  then have "find (\<lambda>p. mimeType p = Some (js ''text/plain'')) xs = Some t"
    by (intro find_first [of xs pre t post]) auto
  then have "found_data (find (\<lambda>p. mimeType p = Some (js ''text/plain'')) xs) = Some d"
    using h by (simp add: found_data_def)
  with b show "extractBody (Some (Part mt fn hs b (Some xs))) = decodeBase64Url d"
    by (rule extractBody_plain_child)
next
  fix pre h post d
  assume b: "inline_data b = None"
    and h: "found_data (find (\<lambda>p. mimeType p = Some (js ''text/plain'')) xs) = None \<and>
      xs = pre @ h # post \<and> (\<forall>p \<in> set pre. mimeType p \<noteq> Some (js ''text/html'')) \<and>
      mimeType h = Some (js ''text/html'') \<and> inline_data (body h) = Some d"
  then have "find (\<lambda>p. mimeType p = Some (js ''text/html'')) xs = Some h"
    by (intro find_first [of xs pre h post]) auto
  then have "found_data (find (\<lambda>p. mimeType p = Some (js ''text/html'')) xs) = Some d"
    using h by (simp add: found_data_def)
  moreover have "found_data (find (\<lambda>p. mimeType p = Some (js ''text/plain'')) xs) = None"
    using h by blast
  ultimately show
    "extractBody (Some (Part mt fn hs b (Some xs))) = stripHtmlTags (decodeBase64Url d)"
    using b by (intro extractBody_html_child)
next
  assume b: "inline_data b = None"
    and h: "found_data (find (\<lambda>p. mimeType p = Some (js ''text/plain'')) xs) = None \<and>
    found_data (find (\<lambda>p. mimeType p = Some (js ''text/html'')) xs) = None"
  then show "extractBody (Some (Part mt fn hs b (Some xs))) =
        (case find (\<lambda>p. extractBody (Some p) \<noteq> []) xs of
           None \<Rightarrow> [] | Some p \<Rightarrow> extractBody (Some p))"
    by (intro extractBody_descend) auto
qed

theorem decodeBody_children_witness:
  "inline_data None = None \<and>
   found_data (find (\<lambda>p. mimeType p = Some (js ''text/plain''))
     [Part (Some (js ''text/plain'')) None None None None,
      Part (Some (js ''text/html'')) None None
        (Some (Body None (Some (js ''PGI-SGk8L2I-'')) None)) None,
      Part (Some (js ''text/plain'')) None None
        (Some (Body None (Some (js ''SGVsbG8'')) None)) None]) = None \<and>
   extractBody (Some (Part (Some (js ''multipart/alternative'')) None None None (Some
     [Part (Some (js ''text/plain'')) None None None None,
      Part (Some (js ''text/html'')) None None
        (Some (Body None (Some (js ''PGI-SGk8L2I-'')) None)) None,
      Part (Some (js ''text/plain'')) None None
        (Some (Body None (Some (js ''SGVsbG8'')) None)) None]))) = js ''Hi''"
proof -
  let ?p1 = "Part (Some (js ''text/plain'')) None None None None"
  let ?p2 = "Part (Some (js ''text/html'')) None None
        (Some (Body None (Some (js ''PGI-SGk8L2I-'')) None)) None"
  let ?p3 = "Part (Some (js ''text/plain'')) None None
        (Some (Body None (Some (js ''SGVsbG8'')) None)) None"
  have b: "inline_data None = None"
    by (simp add: inline_data_def)
  have plain: "found_data (find (\<lambda>p. mimeType p = Some (js ''text/plain'')) [?p1, ?p2, ?p3])
      = None"
    by (simp add: found_data_def inline_data_def)
  have html: "[?p1, ?p2, ?p3] = [?p1] @ ?p2 # [?p3] \<and>
      (\<forall>p \<in> set [?p1]. mimeType p \<noteq> Some (js ''text/html'')) \<and>
      mimeType ?p2 = Some (js ''text/html'') \<and>
      inline_data (body ?p2) = Some (js ''PGI-SGk8L2I-'')"
    by (simp add: inline_data_def js_def)
  from decodeBody_children [of None "[?p1, ?p2, ?p3]" "Some (js ''multipart/alternative'')"
      None None] b
  have "\<forall>pre h post d.
      found_data (find (\<lambda>p. mimeType p = Some (js ''text/plain'')) [?p1, ?p2, ?p3]) = None \<and>
      [?p1, ?p2, ?p3] = pre @ h # post \<and>
      (\<forall>p \<in> set pre. mimeType p \<noteq> Some (js ''text/html'')) \<and>
      mimeType h = Some (js ''text/html'') \<and> inline_data (body h) = Some d \<longrightarrow>
      extractBody (Some (Part (Some (js ''multipart/alternative'')) None None None
        (Some [?p1, ?p2, ?p3]))) = stripHtmlTags (decodeBase64Url d)"
    by blast
  with plain html
  have "extractBody (Some (Part (Some (js ''multipart/alternative'')) None None None
        (Some [?p1, ?p2, ?p3]))) = stripHtmlTags (decodeBase64Url (js ''PGI-SGk8L2I-''))"
    by blast
  with b plain show ?thesis
    by (simp only: example_html_text simp_thms)
qed

text \<open>
  Claim C1 as stated fails. The children are a \<open>text/plain\<close> part without payload, a
  \<open>text/html\<close> part whose payload encodes \<open><b>Hi</b>\<close>, and a \<open>text/plain\<close> part whose
  payload encodes \<open>Hello\<close>. The first child that is \<open>text/plain\<close> and carries payload
  is the third, whose text is \<open>Hello\<close>; the code returns the degraded HTML of the
  second, \<open>Hi\<close>.
\<close>

theorem decodeBody_first_plain_counterexample:
  "found_data (spec_plain_child
     [Part (Some (js ''text/plain'')) None None None None,
      Part (Some (js ''text/html'')) None None
        (Some (Body None (Some (js ''PGI-SGk8L2I-'')) None)) None,
      Part (Some (js ''text/plain'')) None None
        (Some (Body None (Some (js ''SGVsbG8'')) None)) None]) = Some (js ''SGVsbG8'') \<and>
   decodeBase64Url (js ''SGVsbG8'') = js ''Hello'' \<and>
   extractBody (Some (Part (Some (js ''multipart/alternative'')) None None None (Some
     [Part (Some (js ''text/plain'')) None None None None,
      Part (Some (js ''text/html'')) None None
        (Some (Body None (Some (js ''PGI-SGk8L2I-'')) None)) None,
      Part (Some (js ''text/plain'')) None None
        (Some (Body None (Some (js ''SGVsbG8'')) None)) None]))) = js ''Hi''"
proof -
  let ?p1 = "Part (Some (js ''text/plain'')) None None None None"
  let ?p2 = "Part (Some (js ''text/html'')) None None
        (Some (Body None (Some (js ''PGI-SGk8L2I-'')) None)) None"
  let ?p3 = "Part (Some (js ''text/plain'')) None None
        (Some (Body None (Some (js ''SGVsbG8'')) None)) None"
  have spec: "found_data (spec_plain_child [?p1, ?p2, ?p3]) = Some (js ''SGVsbG8'')"
    by (simp add: found_data_def spec_plain_child_def inline_data_def js_def)
  have b: "inline_data None = None"
    by (simp add: inline_data_def)
  have plain: "found_data (find (\<lambda>p. mimeType p = Some (js ''text/plain'')) [?p1, ?p2, ?p3])
      = None"
    by (simp add: found_data_def inline_data_def)
  have html: "found_data (find (\<lambda>p. mimeType p = Some (js ''text/html'')) [?p1, ?p2, ?p3])
      = Some (js ''PGI-SGk8L2I-'')"
    by (simp add: found_data_def inline_data_def js_def)
  have "extractBody (Some (Part (Some (js ''multipart/alternative'')) None None None
        (Some [?p1, ?p2, ?p3]))) = stripHtmlTags (decodeBase64Url (js ''PGI-SGk8L2I-''))"
    using b plain html by (rule extractBody_html_child)
  with spec show ?thesis
    by (simp only: example_html_text example_plain_text simp_thms)
qed

section \<open>Properties of the decode side on loosely typed input\<close>

subsection \<open>Trees of the declared type\<close>

text \<open>
  On a tree of the declared type no access raises: the search for a child of a given
  MIME type returns, what it finds carries a string or nothing as payload, and the
  decoder is given a string.
\<close>

lemma decode_typed:
  "opt_string d \<Longrightarrow> truthy_v d \<Longrightarrow> \<exists>t. decodeBase64Url_l d = Inr t"
  by (cases d) (simp_all add: decodeBase64Url_l_def)

lemma find_l_typed:
  "list_all well_typed xs \<Longrightarrow>
   \<exists>r. find_l m xs = Inr r \<and> (case r of None \<Rightarrow> True | Some p \<Rightarrow> p \<in> set xs \<and> well_typed p)"
proof (induction xs)
  case Nil
  then show ?case by simp
next
  case (Cons x xs)
  then show ?case by (cases x) (auto split: option.splits)
qed

lemma found_typed:
  "(case r of None \<Rightarrow> True | Some p \<Rightarrow> p \<in> set xs \<and> well_typed p) \<Longrightarrow> opt_string (found_data_l r)"
  apply (cases r)
   apply simp
  subgoal for p
    apply (cases p)
     apply simp
    subgoal for mt fn b ps
      by (cases b) simp_all
    done
  done

lemma extractBody_l_typed:
  "well_typed p \<Longrightarrow> \<exists>t. extractBody_l p = Inr t"
  "list_all well_typed xs \<Longrightarrow> \<exists>t. extractBody_l_loop xs = Inr t"
proof (induction p and xs rule: extractBody_l_extractBody_l_loop.induct)
  case (1 v)
  then show ?case by simp
next
  case (2 mt fn b ps)
  show ?case
  proof (cases "truthy_v (body_data b)")
    case True
    from 2(2) have "opt_string (body_data b)" by (cases b) simp_all
    with True obtain t where "decodeBase64Url_l (body_data b) = Inr t"
      using decode_typed by blast
    with True show ?thesis by simp
  next
    case False
    show ?thesis
    proof (cases ps)
      case (PartsValue v)
      with 2(2) False show ?thesis by (cases v) simp_all
    next
      case PartsObject
      with 2(2) show ?thesis by simp
    next
      case (PartsArray xs)
      with 2(2) have all: "list_all well_typed xs" by simp
      obtain r1 where r1: "find_l (js ''text/plain'') xs = Inr r1"
        "opt_string (found_data_l r1)"
        using find_l_typed [OF all] found_typed by blast
      obtain r2 where r2: "find_l (js ''text/html'') xs = Inr r2"
        "opt_string (found_data_l r2)"
        using find_l_typed [OF all] found_typed by blast
      show ?thesis
      proof (cases "truthy_v (found_data_l r1)")
        case True
        with r1 decode_typed obtain t where "decodeBase64Url_l (found_data_l r1) = Inr t"
          by blast
        with True False PartsArray r1 show ?thesis by simp
      next
        case n1: False
        show ?thesis
        proof (cases "truthy_v (found_data_l r2)")
          case True
          with r2 decode_typed obtain t where "decodeBase64Url_l (found_data_l r2) = Inr t"
            by blast
          with True n1 False PartsArray r1 r2 show ?thesis by simp
        next
          case n2: False
          from 2(1) [OF False PartsArray r1(1) n1 r2(1) n2] all
          obtain t where "extractBody_l_loop xs = Inr t" by blast
          with n1 n2 False PartsArray r1 r2 show ?thesis by simp
        qed
      qed
    qed
  qed
next
  case 3
  then show ?case by simp
next
  case (4 p rest)
  from 4(3) have wp: "well_typed p" and wr: "list_all well_typed rest" by simp_all
  from 4(1) [OF wp] obtain t where t: "extractBody_l p = Inr t" by blast
  show ?case
  proof (cases "t \<noteq> []")
    case True
    with t show ?thesis by simp
  next
    case False
    with 4(2) [OF t] wr t show ?thesis by simp
  qed
qed


lemma find_l_free:
  "find_l m xs = Inr r \<Longrightarrow> list_all payload_free xs \<Longrightarrow> \<not> truthy_v (found_data_l r)"
proof (induction xs)
  case Nil
  then show ?case by auto
next
  case (Cons x xs)
  then show ?case by (cases x) (auto split: if_splits)
qed

lemma extractBody_l_free:
  "well_typed p \<Longrightarrow> payload_free p \<Longrightarrow> extractBody_l p = Inr []"
  "list_all well_typed xs \<Longrightarrow> list_all payload_free xs \<Longrightarrow> extractBody_l_loop xs = Inr []"
proof (induction p and xs rule: extractBody_l_extractBody_l_loop.induct)
  case (1 v)
  then show ?case by simp
next
  case (2 mt fn b ps)
  from 2(3) have nodata: "\<not> truthy_v (body_data b)" by simp
  show ?case
  proof (cases ps)
    case (PartsValue v)
    with 2(2) nodata show ?thesis by (cases v) simp_all
  next
    case PartsObject
    with 2(2) show ?thesis by simp
  next
    case (PartsArray xs)
    with 2(2,3) have all: "list_all well_typed xs" and free: "list_all payload_free xs"
      by simp_all
    obtain r1 where r1: "find_l (js ''text/plain'') xs = Inr r1"
      using find_l_typed [OF all] by blast
    obtain r2 where r2: "find_l (js ''text/html'') xs = Inr r2"
      using find_l_typed [OF all] by blast
    have n1: "\<not> truthy_v (found_data_l r1)" and n2: "\<not> truthy_v (found_data_l r2)"
      using find_l_free r1 r2 free by blast+
    from 2(1) [OF nodata PartsArray r1 n1 r2 n2 all free]
    show ?thesis using nodata PartsArray r1 r2 n1 n2 by simp
  qed
next
  case 3
  then show ?case by simp
next
  case (4 p rest)
  from 4(3,4) have "extractBody_l p = Inr []"
    using 4(1) by simp
  moreover from this 4(2,3,4) have "extractBody_l_loop rest = Inr []"
    by simp
  ultimately show ?case by simp
qed

lemma extractAttachments_l_typed:
  "well_typed p \<Longrightarrow> \<exists>r. extractAttachments_l p = Inr r"
  "list_all well_typed xs \<Longrightarrow> \<exists>r. extractAttachments_l_loop xs acc = Inr r"
proof (induction p and xs acc rule: extractAttachments_l_extractAttachments_l_loop.induct)
  case (1 v)
  then show ?case by simp
next
  case (2 mt fn b ps)
  show ?case
  proof (cases ps)
    case (PartsValue v)
    with 2(2) show ?thesis by (cases v) simp_all
  next
    case PartsObject
    with 2(2) show ?thesis by simp
  next
    case (PartsArray xs)
    with 2 show ?thesis by simp
  qed
next
  case (3 acc)
  then show ?case by simp
next
  case (4 v rest acc)
  then show ?case by simp
next
  case (5 mt fn b ps rest acc)
  from 5(4) have wp: "well_typed (Object mt fn b ps)" and wr: "list_all well_typed rest"
    by simp_all
  show ?case
  proof (cases "truthy_parts ps")
    case True
    from 5(1) [OF refl True wp] obtain more
      where more: "extractAttachments_l (Object mt fn b ps) = Inr more" by blast
    from 5(2) [OF refl True more wr] more True show ?thesis
      by (simp add: Let_def del: extractAttachments_l.simps)
  next
    case False
    from 5(3) [OF refl False wr] False show ?thesis
      by (simp add: Let_def del: extractAttachments_l.simps)
  qed
qed


lemma extractAttachments_lw_typed:
  "well_typed p \<Longrightarrow> \<exists>r. extractAttachments_lw p = Inr r"
  "list_all well_typed xs \<Longrightarrow> \<exists>r. extractAttachments_lw_loop xs acc = Inr r"
proof (induction p and xs acc rule: extractAttachments_lw_extractAttachments_lw_loop.induct)
  case (1 v)
  then show ?case by simp
next
  case (2 mt fn b ps)
  show ?case
  proof (cases ps)
    case (PartsValue v)
    with 2(2) show ?thesis by (cases v) simp_all
  next
    case PartsObject
    with 2(2) show ?thesis by simp
  next
    case (PartsArray xs)
    with 2 show ?thesis by simp
  qed
next
  case (3 acc)
  then show ?case by simp
next
  case (4 v rest acc)
  then show ?case by simp
next
  case (5 mt fn b ps rest acc)
  from 5(4) have wp: "well_typed (Object mt fn b ps)" and wr: "list_all well_typed rest"
    by simp_all
  show ?case
  proof (cases "truthy_parts ps")
    case True
    from 5(1) [OF refl True wp] obtain more
      where more: "extractAttachments_lw (Object mt fn b ps) = Inr more" by blast
    from 5(2) [OF refl True more wr] more True show ?thesis
      by (simp add: Let_def del: extractAttachments_lw.simps)
  next
    case False
    from 5(3) [OF refl False wr] False show ?thesis
      by (simp add: Let_def del: extractAttachments_lw.simps)
  qed
qed

lemma unnamed_is_unnamed_below: "unnamed p \<Longrightarrow> unnamed_below p"
  by (cases p) simp_all

lemma extractAttachments_l_unnamed:
  "well_typed p \<Longrightarrow> unnamed_below p \<Longrightarrow> extractAttachments_l p = Inr []"
  "list_all well_typed xs \<Longrightarrow> list_all unnamed xs \<Longrightarrow> extractAttachments_l_loop xs acc = Inr acc"
proof (induction p and xs acc rule: extractAttachments_l_extractAttachments_l_loop.induct)
  case (1 v)
  then show ?case by simp
next
  case (2 mt fn b ps)
  show ?case
  proof (cases ps)
    case (PartsValue v)
    with 2(2) show ?thesis by (cases v) simp_all
  next
    case PartsObject
    with 2(2) show ?thesis by simp
  next
    case (PartsArray xs)
    with 2 show ?thesis by simp
  qed
next
  case (3 acc)
  then show ?case by simp
next
  case (4 v rest acc)
  then show ?case by simp
next
  case (5 mt fn b ps rest acc)
  from 5(4) have wp: "well_typed (Object mt fn b ps)" and wr: "list_all well_typed rest"
    by simp_all
  from 5(5) have up: "unnamed (Object mt fn b ps)" and ur: "list_all unnamed rest"
    by simp_all
  from up have nofn: "\<not> truthy_v fn" by simp
  show ?case
  proof (cases "truthy_parts ps")
    case True
    from 5(1) [OF refl True wp unnamed_is_unnamed_below [OF up]]
    have more: "extractAttachments_l (Object mt fn b ps) = Inr []" .
    from 5(2) [OF refl True more wr ur] more True nofn show ?thesis
      by (simp add: Let_def del: extractAttachments_l.simps)
  next
    case False
    from 5(3) [OF refl False wr ur] False nofn show ?thesis
      by (simp add: Let_def del: extractAttachments_l.simps)
  qed
qed

lemma extractAttachments_lw_unnamed:
  "well_typed p \<Longrightarrow> unnamed_below p \<Longrightarrow> extractAttachments_lw p = Inr []"
  "list_all well_typed xs \<Longrightarrow> list_all unnamed xs \<Longrightarrow> extractAttachments_lw_loop xs acc = Inr acc"
proof (induction p and xs acc rule: extractAttachments_lw_extractAttachments_lw_loop.induct)
  case (1 v)
  then show ?case by simp
next
  case (2 mt fn b ps)
  show ?case
  proof (cases ps)
    case (PartsValue v)
    with 2(2) show ?thesis by (cases v) simp_all
  next
    case PartsObject
    with 2(2) show ?thesis by simp
  next
    case (PartsArray xs)
    with 2 show ?thesis by simp
  qed
next
  case (3 acc)
  then show ?case by simp
next
  case (4 v rest acc)
  then show ?case by simp
next
  case (5 mt fn b ps rest acc)
  from 5(4) have wp: "well_typed (Object mt fn b ps)" and wr: "list_all well_typed rest"
    by simp_all
  from 5(5) have up: "unnamed (Object mt fn b ps)" and ur: "list_all unnamed rest"
    by simp_all
  from up have nofn: "\<not> truthy_v fn" by simp
  show ?case
  proof (cases "truthy_parts ps")
    case True
    from 5(1) [OF refl True wp unnamed_is_unnamed_below [OF up]]
    have more: "extractAttachments_lw (Object mt fn b ps) = Inr []" .
    from 5(2) [OF refl True more wr ur] more True nofn show ?thesis
      by (simp add: Let_def del: extractAttachments_lw.simps)
  next
    case False
    from 5(3) [OF refl False wr ur] False nofn show ?thesis
      by (simp add: Let_def del: extractAttachments_lw.simps)
  qed
qed

subsection \<open>Agreement with the typed functions\<close>

text \<open>
  On a tree of the data model, \<open>extractBody_l\<close>, \<open>extractAttachments_l\<close> and
  \<open>extractAttachments_lw\<close> return what \<open>extractBody\<close>, \<open>extractAttachments\<close> and
  \<open>extractAttachments_w\<close> return: the typed functions are the loosely typed ones on
  input of the declared type.
\<close>

lemma loosen_string_eq [simp]: "(loosen_string v = Text m) = (v = Some m)"
  by (simp add: loosen_string_def split: option.splits)

lemma body_data_loosen:
  "inline_data b = Some d \<Longrightarrow> body_data (loosen_body b) = Text d"
  "truthy_v (body_data (loosen_body b)) = (inline_data b \<noteq> None)"
  by (auto simp: loosen_body_def inline_data_def loosen_string_def
      split: option.splits if_splits)

lemma find_l_loosen:
  "find_l m (map loosen xs) = Inr (map_option loosen (find (\<lambda>p. mimeType p = Some m) xs))"
proof (induction xs)
  case Nil
  then show ?case by simp
next
  case (Cons x xs)
  then show ?case by (cases x) simp
qed

lemma found_data_loosen:
  "truthy_v (found_data_l (map_option loosen r)) = (found_data r \<noteq> None)"
  "found_data r = Some d \<Longrightarrow> found_data_l (map_option loosen r) = Text d"
proof -
  show "truthy_v (found_data_l (map_option loosen r)) = (found_data r \<noteq> None)"
  proof (cases r)
    case None
    then show ?thesis by (simp add: found_data_def)
  next
    case (Some p)
    then show ?thesis by (cases p) (simp add: found_data_def body_data_loosen(2))
  qed
  show "found_data r = Some d \<Longrightarrow> found_data_l (map_option loosen r) = Text d"
  proof (cases r)
    case None
    then show "found_data r = Some d \<Longrightarrow> ?thesis" by (simp add: found_data_def)
  next
    case (Some p)
    then show "found_data r = Some d \<Longrightarrow> ?thesis"
      using body_data_loosen(1) [of "body p" d] by (cases p) (simp add: found_data_def)
  qed
qed

lemma extractBody_l_loosen:
  "extractBody_l (loosen_root root) = Inr (extractBody root)"
  "extractBody_l_loop (map loosen xs) = Inr (extractBody_loop xs)"
proof (induction root and xs rule: extractBody_extractBody_loop.induct)
  case 1
  then show ?case by (simp add: loosen_root_def)
next
  case (2 mt fn hs b ps)
  show ?case
  proof (cases "inline_data b")
    case (Some d)
    then have "body_data (loosen_body b) = Text d" "truthy_v (body_data (loosen_body b))"
      using body_data_loosen(1) [of b d] body_data_loosen(2) [of b] by simp_all
    with Some show ?thesis
      by (simp add: loosen_root_def decodeBase64Url_l_def Let_def)
  next
    case None
    then have nodata: "\<not> truthy_v (body_data (loosen_body b))"
      using body_data_loosen(2) [of b] by simp
    show ?thesis
    proof (cases ps)
      case n: None
      with None nodata show ?thesis by (simp add: loosen_root_def)
    next
      case (Some xs)
      let ?r1 = "find (\<lambda>p. mimeType p = Some (js ''text/plain'')) xs"
      let ?r2 = "find (\<lambda>p. mimeType p = Some (js ''text/html'')) xs"
      show ?thesis
      proof (cases "found_data ?r1")
        case d1: (Some d)
        with None Some nodata show ?thesis
          using found_data_loosen(1) [of ?r1] found_data_loosen(2) [of ?r1 d]
          by (simp add: loosen_root_def find_l_loosen decodeBase64Url_l_def)
      next
        case n1: None
        show ?thesis
        proof (cases "found_data ?r2")
          case d2: (Some d)
          with None Some nodata n1 show ?thesis
            using found_data_loosen(1) [of ?r1] found_data_loosen(1) [of ?r2]
              found_data_loosen(2) [of ?r2 d]
            by (simp add: loosen_root_def find_l_loosen decodeBase64Url_l_def)
        next
          case n2: None
          from 2 [OF None Some n1 n2] None Some nodata n1 n2 show ?thesis
            using found_data_loosen(1) [of ?r1] found_data_loosen(1) [of ?r2]
            by (simp add: loosen_root_def find_l_loosen)
        qed
      qed
    qed
  qed
next
  case 3
  then show ?case by simp
next
  case (4 p rest)
  then show ?case by (simp add: loosen_root_def Let_def)
qed


lemma pushed_loosen:
  "(if truthy_v (loosen_string fn) \<and> length_positive (loosen_string fn)
    then map loosen_attachment acc @
      [Descriptor (loosen_string fn)
         (or_else (loosen_string mt) (Text (js ''application/octet-stream'')))
         (or_else (body_size (loosen_body b)) (Number 0)) Undefined]
    else map loosen_attachment acc) =
   map loosen_attachment
     (case fn of
        Some f \<Rightarrow>
          if f \<noteq> [] \<and> length f > 0
          then acc @ [Attachment f (mimeType_or_default (Part mt fn hs b ps))
                 (size_or_zero (Part mt fn hs b ps)) None]
          else acc
      | None \<Rightarrow> acc)"
  by (auto simp: loosen_attachment_def loosen_string_def length_positive_def or_else_def
      mimeType_or_default_def size_or_zero_def loosen_body_def loosen_number_def
      split: option.splits)

lemma truthy_parts_loosen:
  "truthy_parts (case ps of None \<Rightarrow> PartsValue Undefined | Some xs \<Rightarrow> PartsArray (map loosen xs))
     = (ps \<noteq> None)"
  by (cases ps) simp_all

lemma extractAttachments_l_loosen:
  "extractAttachments_l (loosen_root root) = Inr (map loosen_attachment (extractAttachments root))"
  "extractAttachments_l_loop (map loosen xs) (map loosen_attachment acc) =
     Inr (map loosen_attachment (extractAttachments_loop xs acc))"
proof (induction root and xs acc rule: extractAttachments_extractAttachments_loop.induct)
  case 1
  then show ?case by (simp add: loosen_root_def)
next
  case (2 mt fn hs b)
  then show ?case by (simp add: loosen_root_def)
next
  case (3 mt fn hs b ps)
  then show ?case by (simp add: loosen_root_def)
next
  case (4 acc)
  then show ?case by simp
next
  case (5 p rest acc)
  obtain mt fn hs b ps where p: "p = Part mt fn hs b ps" by (cases p)
  define pushed where "pushed =
     (case fn of
        Some f \<Rightarrow>
          if f \<noteq> [] \<and> length f > 0
          then acc @ [Attachment f (mimeType_or_default p) (size_or_zero p) None]
          else acc
      | None \<Rightarrow> acc)"
  have pl: "(if truthy_v (loosen_string fn) \<and> length_positive (loosen_string fn)
    then map loosen_attachment acc @
      [Descriptor (loosen_string fn)
         (or_else (loosen_string mt) (Text (js ''application/octet-stream'')))
         (or_else (body_size (loosen_body b)) (Number 0)) Undefined]
    else map loosen_attachment acc) = map loosen_attachment pushed"
    unfolding pushed_def p by (rule pushed_loosen)
  have pushed: "pushed = (case filename p of
        Some f \<Rightarrow>
          if f \<noteq> [] \<and> length f > 0
          then acc @ [Attachment f (mimeType_or_default p) (size_or_zero p) None]
          else acc
      | None \<Rightarrow> acc)"
    by (simp add: pushed_def p)
  show ?case
  proof (cases "ps = None")
    case True
    then have np: "parts p = None" by (simp add: p)
    from 5(2) [OF pushed refl] np
    have rest: "extractAttachments_l_loop (map loosen rest) (map loosen_attachment pushed) =
        Inr (map loosen_attachment (extractAttachments_loop rest pushed))"
      by simp
    have step: "extractAttachments_loop (p # rest) acc = extractAttachments_loop rest pushed"
      using np by (simp add: pushed Let_def)
    have "extractAttachments_l_loop (map loosen (p # rest)) (map loosen_attachment acc) =
        extractAttachments_l_loop (map loosen rest) (map loosen_attachment pushed)"
      using True
      unfolding p loosen.simps list.map extractAttachments_l_loop.simps Let_def pl
        truthy_parts_loosen
      by simp
    with rest step show ?thesis by simp
  next
    case False
    then have hp: "parts p \<noteq> None" by (simp add: p)
    from 5(1) [OF pushed hp]
    have more: "extractAttachments_l (loosen p) =
        Inr (map loosen_attachment (extractAttachments (Some p)))"
      by (simp add: loosen_root_def)
    from 5(2) [OF pushed refl] hp
    have rest: "extractAttachments_l_loop (map loosen rest)
        (map loosen_attachment (pushed @ extractAttachments (Some p))) =
        Inr (map loosen_attachment (extractAttachments_loop rest
          (pushed @ extractAttachments (Some p))))"
      by simp
    have step: "extractAttachments_loop (p # rest) acc =
        extractAttachments_loop rest (pushed @ extractAttachments (Some p))"
      using hp by (simp add: pushed Let_def)
    have "extractAttachments_l_loop (map loosen (p # rest)) (map loosen_attachment acc) =
        extractAttachments_l_loop (map loosen rest)
          (map loosen_attachment pushed @ map loosen_attachment (extractAttachments (Some p)))"
      using more False
      unfolding p loosen.simps list.map extractAttachments_l_loop.simps Let_def pl
        truthy_parts_loosen
      by simp
    with rest step show ?thesis by simp
  qed
qed

lemma pushed_loosen_w:
  "(if truthy_v (loosen_string fn) \<and> length_positive (loosen_string fn) \<and>
       truthy_v (body_attachmentId_l (loosen_body b))
    then map loosen_attachment acc @
      [Descriptor (loosen_string fn)
         (or_else (loosen_string mt) (Text (js ''application/octet-stream'')))
         (or_else (body_size (loosen_body b)) (Number 0))
         (body_attachmentId_l (loosen_body b))]
    else map loosen_attachment acc) =
   map loosen_attachment
     (case fn of
        Some f \<Rightarrow>
          if f \<noteq> [] \<and> length f > 0 \<and> truthy (body_attachmentId (Part mt fn hs b ps))
          then acc @ [Attachment f (mimeType_or_default (Part mt fn hs b ps))
                 (size_or_zero (Part mt fn hs b ps)) (body_attachmentId (Part mt fn hs b ps))]
          else acc
      | None \<Rightarrow> acc)"
  by (auto simp: loosen_attachment_def loosen_string_def length_positive_def or_else_def
      mimeType_or_default_def size_or_zero_def loosen_body_def loosen_number_def
      truthy_def body_attachmentId_def
      split: option.splits)


lemma extractAttachments_lw_loosen:
  "extractAttachments_lw (loosen_root root) = Inr (map loosen_attachment (extractAttachments_w root))"
  "extractAttachments_lw_loop (map loosen xs) (map loosen_attachment acc) =
     Inr (map loosen_attachment (extractAttachments_w_loop xs acc))"
proof (induction root and xs acc rule: extractAttachments_w_extractAttachments_w_loop.induct)
  case 1
  then show ?case by (simp add: loosen_root_def)
next
  case (2 mt fn hs b)
  then show ?case by (simp add: loosen_root_def)
next
  case (3 mt fn hs b ps)
  then show ?case by (simp add: loosen_root_def)
next
  case (4 acc)
  then show ?case by simp
next
  case (5 p rest acc)
  obtain mt fn hs b ps where p: "p = Part mt fn hs b ps" by (cases p)
  define pushed where "pushed =
     (case fn of
        Some f \<Rightarrow>
          if f \<noteq> [] \<and> length f > 0 \<and> truthy (body_attachmentId p)
          then acc @ [Attachment f (mimeType_or_default p) (size_or_zero p)
                 (body_attachmentId p)]
          else acc
      | None \<Rightarrow> acc)"
  have pl: "(if truthy_v (loosen_string fn) \<and> length_positive (loosen_string fn) \<and>
       truthy_v (body_attachmentId_l (loosen_body b))
    then map loosen_attachment acc @
      [Descriptor (loosen_string fn)
         (or_else (loosen_string mt) (Text (js ''application/octet-stream'')))
         (or_else (body_size (loosen_body b)) (Number 0))
         (body_attachmentId_l (loosen_body b))]
    else map loosen_attachment acc) = map loosen_attachment pushed"
    unfolding pushed_def p by (rule pushed_loosen_w)
  have pushed: "pushed = (case filename p of
        Some f \<Rightarrow>
          if f \<noteq> [] \<and> length f > 0 \<and> truthy (body_attachmentId p)
          then acc @ [Attachment f (mimeType_or_default p) (size_or_zero p)
                 (body_attachmentId p)]
          else acc
      | None \<Rightarrow> acc)"
    by (simp add: pushed_def p)
  show ?case
  proof (cases "ps = None")
    case True
    then have np: "parts p = None" by (simp add: p)
    from 5(2) [OF pushed refl] np
    have rest: "extractAttachments_lw_loop (map loosen rest) (map loosen_attachment pushed) =
        Inr (map loosen_attachment (extractAttachments_w_loop rest pushed))"
      by simp
    have step: "extractAttachments_w_loop (p # rest) acc = extractAttachments_w_loop rest pushed"
      using np by (simp add: pushed Let_def)
    have "extractAttachments_lw_loop (map loosen (p # rest)) (map loosen_attachment acc) =
        extractAttachments_lw_loop (map loosen rest) (map loosen_attachment pushed)"
      using True
      unfolding p loosen.simps list.map extractAttachments_lw_loop.simps Let_def pl
        truthy_parts_loosen
      by simp
    with rest step show ?thesis by simp
  next
    case False
    then have hp: "parts p \<noteq> None" by (simp add: p)
    from 5(1) [OF pushed hp]
    have more: "extractAttachments_lw (loosen p) =
        Inr (map loosen_attachment (extractAttachments_w (Some p)))"
      by (simp add: loosen_root_def)
    from 5(2) [OF pushed refl] hp
    have rest: "extractAttachments_lw_loop (map loosen rest)
        (map loosen_attachment (pushed @ extractAttachments_w (Some p))) =
        Inr (map loosen_attachment (extractAttachments_w_loop rest
          (pushed @ extractAttachments_w (Some p))))"
      by simp
    have step: "extractAttachments_w_loop (p # rest) acc =
        extractAttachments_w_loop rest (pushed @ extractAttachments_w (Some p))"
      using hp by (simp add: pushed Let_def)
    have "extractAttachments_lw_loop (map loosen (p # rest)) (map loosen_attachment acc) =
        extractAttachments_lw_loop (map loosen rest)
          (map loosen_attachment pushed @ map loosen_attachment (extractAttachments_w (Some p)))"
      using more False
      unfolding p loosen.simps list.map extractAttachments_lw_loop.simps Let_def pl
        truthy_parts_loosen
      by simp
    with rest step show ?thesis by simp
  qed
qed


lemma loosen_well_typed:
  "well_typed (loosen p)"
proof (induction p)
  case (Part mt fn hs b ps)
  have b: "well_typed_body (loosen_body b)"
    by (auto simp: loosen_body_def loosen_string_def loosen_number_def split: option.splits)
  have s: "opt_string (loosen_string mt)" "opt_string (loosen_string fn)"
    by (auto simp: loosen_string_def split: option.splits)
  show ?case
  proof (cases ps)
    case None
    with b s show ?thesis by simp
  next
    case (Some xs)
    with Part have "list_all well_typed (map loosen xs)"
      by (auto simp: list_all_iff)
    with Some b s show ?thesis by simp
  qed
qed

subsection \<open>Totality of the decode side\<close>

text \<open>
  Claim C9, as the code has it. On a root that is not an object at all (an absent
  root, or any other primitive value) \<open>extractBody\<close> returns the empty string and both
  \<open>extractAttachments\<close> return the empty list. On every tree of the declared type the
  three functions return a result and do not raise. Such a tree decodes to the empty
  string if no part carries inline payload, and has no attachments if no part below
  the root has a filename. The guarantee stops at the declared type: the accesses to
  the elements of \<open>parts\<close>, the call of \<open>find\<close>, the iteration and the decoder are not
  guarded against values of another type.
\<close>

theorem decode_side_total:
  "extractBody_l (Value v) = Inr [] \<and> extractAttachments_l (Value v) = Inr [] \<and>
   extractAttachments_lw (Value v) = Inr [] \<and>
   (well_typed root \<longrightarrow>
      (\<exists>found. extractBody_l root = Inr found) \<and>
      (\<exists>found. extractAttachments_l root = Inr found) \<and>
      (\<exists>found. extractAttachments_lw root = Inr found)) \<and>
   (well_typed root \<and> payload_free root \<longrightarrow> extractBody_l root = Inr []) \<and>
   (well_typed root \<and> unnamed_below root \<longrightarrow>
      extractAttachments_l root = Inr [] \<and> extractAttachments_lw root = Inr [])"
  using extractBody_l_typed(1) [of root] extractAttachments_l_typed(1) [of root]
    extractAttachments_lw_typed(1) [of root] extractBody_l_free(1) [of root]
    extractAttachments_l_unnamed(1) [of root] extractAttachments_lw_unnamed(1) [of root]
  by simp

theorem decode_side_total_witness:
  "well_typed (Object (Text (js ''multipart/mixed'')) Undefined (BodyValue Undefined)
      (PartsArray [Object Null Null (BodyObject Undefined Null Undefined) (PartsValue Null)])) \<and>
   payload_free (Object (Text (js ''multipart/mixed'')) Undefined (BodyValue Undefined)
      (PartsArray [Object Null Null (BodyObject Undefined Null Undefined) (PartsValue Null)])) \<and>
   unnamed_below (Object (Text (js ''multipart/mixed'')) Undefined (BodyValue Undefined)
      (PartsArray [Object Null Null (BodyObject Undefined Null Undefined) (PartsValue Null)])) \<and>
   extractBody_l (Object (Text (js ''multipart/mixed'')) Undefined (BodyValue Undefined)
      (PartsArray [Object Null Null (BodyObject Undefined Null Undefined) (PartsValue Null)]))
     = Inr [] \<and>
   extractAttachments_l (Object (Text (js ''multipart/mixed'')) Undefined (BodyValue Undefined)
      (PartsArray [Object Null Null (BodyObject Undefined Null Undefined) (PartsValue Null)]))
     = Inr [] \<and>
   extractAttachments_lw (Object (Text (js ''multipart/mixed'')) Undefined (BodyValue Undefined)
      (PartsArray [Object Null Null (BodyObject Undefined Null Undefined) (PartsValue Null)]))
     = Inr []"
proof -
  let ?root = "Object (Text (js ''multipart/mixed'')) Undefined (BodyValue Undefined)
      (PartsArray [Object Null Null (BodyObject Undefined Null Undefined) (PartsValue Null)])"
  have typed: "well_typed ?root" by simp
  have free: "payload_free ?root" by simp
  have unnamed: "unnamed_below ?root" by simp
  show ?thesis
    using typed free unnamed decode_side_total [of _ ?root] by blast
qed

text \<open>
  Claim C9 as stated fails: there are malformed trees on which the decode side raises
  instead of degrading. A root whose \<open>parts\<close> is the array \<open>[null]\<close> raises a \<open>TypeError\<close>
  in \<open>extractBody\<close> (the callback of \<open>find\<close> reads \<open>p.mimeType\<close>) and in both
  \<open>extractAttachments\<close> (the loop reads \<open>part.filename\<close>). So do, in \<open>extractBody\<close>, a
  root whose \<open>body.data\<close> is the number 7, which \<open>Buffer.from\<close> rejects, and a root whose
  \<open>parts\<close> is \<open>true\<close>, which has no \<open>find\<close>; on the latter \<open>extractAttachments\<close> raises as
  well, \<open>true\<close> not being iterable.
\<close>

theorem decode_side_raises_counterexample:
  "extractBody_l (Object Undefined Undefined (BodyValue Undefined) (PartsArray [Value Null]))
     = Inl TypeError \<and>
   extractAttachments_l (Object Undefined Undefined (BodyValue Undefined) (PartsArray [Value Null]))
     = Inl TypeError \<and>
   extractAttachments_lw (Object Undefined Undefined (BodyValue Undefined) (PartsArray [Value Null]))
     = Inl TypeError \<and>
   extractBody_l (Object Undefined Undefined (BodyObject Undefined (Number 7) Undefined)
      (PartsValue Undefined)) = Inl TypeError \<and>
   extractBody_l (Object Undefined Undefined (BodyValue Undefined) (PartsValue (Boolean True)))
     = Inl TypeError \<and>
   extractAttachments_l (Object Undefined Undefined (BodyValue Undefined) (PartsValue (Boolean True)))
     = Inl TypeError"
  by (simp add: decodeBase64Url_l_def)

section \<open>Properties of message encoding\<close>

lemma join_snoc: "xs \<noteq> [] \<Longrightarrow> join sep (xs @ [y]) = join sep xs @ sep @ y"
  by (induction sep xs rule: join.induct) auto

lemma push_if_optional: "push_if label field lines = lines @ optional_line label field"
  by (simp add: push_if_def optional_line_def split: option.splits)

lemma push_threading_spec: "push_threading opts lines = lines @ spec_threading opts"
  by (simp add: push_threading_def spec_threading_def split: option.splits)

lemma plainLines_spec: "plainLines opts = spec_headers opts @ [[], bodyText opts]"
  by (simp add: plainLines_def spec_headers_def Let_def push_if_optional push_threading_spec
      subjectLine_def)

lemma spec_headers_nonempty: "spec_headers opts \<noteq> []"
  by (simp add: spec_headers_def)

lemma plain_text_spec:
  "join CRLF (plainLines opts) = join CRLF (spec_headers opts) @ CRLF @ CRLF @ bodyText opts"
proof -
  have "plainLines opts = (spec_headers opts @ [[]]) @ [bodyText opts]"
    by (simp add: plainLines_spec)
  then show ?thesis
    by (simp only: join_snoc spec_headers_nonempty append_is_Nil_conv simp_thms) simp
qed

lemma references_line_iff:
  "(\<exists>v. js ''References: '' @ v \<in> set (spec_headers opts)) \<longleftrightarrow> truthy (inReplyTo opts)"
  by (auto simp: spec_headers_def optional_line_def spec_threading_def truthy_def js_def
      split: option.splits)

lemma references_line_value:
  "inReplyTo opts = Some m \<Longrightarrow> m \<noteq> [] \<Longrightarrow>
   js ''References: '' @ (case references opts of Some r \<Rightarrow> r | None \<Rightarrow> m)
     \<in> set (spec_headers opts)"
  by (simp add: spec_headers_def spec_threading_def)

text \<open>
  Claim C5. Before the outer encoding, a message without attachments is the header
  lines \<open>spec_headers\<close> joined with CRLF, one blank line, and the body text. This
  holds for \<open>buildRawMessage\<close> of the first implementation, and for the second when
  the attachment list is absent or empty. The \<open>References\<close> header is among the
  header lines if and only if \<open>inReplyTo\<close> is given, and its value is \<open>references\<close>
  when set, else \<open>inReplyTo\<close>. Here a field is given when it is present and not the
  empty string, which is the test the code makes.
\<close>

theorem encode_without_attachments:
  "buildRawMessage opts =
     encodeBase64Url (join CRLF (spec_headers opts) @ CRLF @ CRLF @ bodyText opts) \<and>
   (attachments opts = None \<or> attachments opts = Some [] \<longrightarrow>
      buildRawMessage_w now random fs opts =
        Inr (encodeBase64Url (join CRLF (spec_headers opts) @ CRLF @ CRLF @ bodyText opts))) \<and>
   ((\<exists>v. js ''References: '' @ v \<in> set (spec_headers opts)) \<longleftrightarrow> truthy (inReplyTo opts)) \<and>
   (\<forall>m. inReplyTo opts = Some m \<and> m \<noteq> [] \<longrightarrow>
      js ''References: '' @ (case references opts of Some r \<Rightarrow> r | None \<Rightarrow> m)
        \<in> set (spec_headers opts))"
  using references_line_iff [of opts] references_line_value [of opts]
  by (auto simp: buildRawMessage_def buildRawMessage_w_def plain_text_spec)

theorem encode_without_attachments_witness:
  "attachments \<lparr>to = js ''a@b.c'', subject = js ''S'', bodyText = js ''hello'', cc = None,
      bcc = Some [], inReplyTo = Some (js ''<abc@x>''), references = None,
      threadSubject = Some (js ''Re: S''), attachments = Some []\<rparr> = Some [] \<and>
   buildRawMessage_w (js ''17'') (js ''k3j'') (\<lambda>p. None)
     \<lparr>to = js ''a@b.c'', subject = js ''S'', bodyText = js ''hello'', cc = None,
      bcc = Some [], inReplyTo = Some (js ''<abc@x>''), references = None,
      threadSubject = Some (js ''Re: S''), attachments = Some []\<rparr> =
     Inr (encodeBase64Url
       (js ''To: a@b.c'' @ CRLF @ js ''Subject: Re: S'' @ CRLF @
        js ''Content-Type: text/plain; charset=utf-8'' @ CRLF @
        js ''In-Reply-To: <abc@x>'' @ CRLF @ js ''References: <abc@x>'' @ CRLF @ CRLF @
        js ''hello''))"
proof -
  let ?o = "\<lparr>to = js ''a@b.c'', subject = js ''S'', bodyText = js ''hello'', cc = None,
      bcc = Some [], inReplyTo = Some (js ''<abc@x>''), references = None,
      threadSubject = Some (js ''Re: S''), attachments = Some []\<rparr>"
  have a: "attachments ?o = None \<or> attachments ?o = Some []"
    by simp
  have hdrs: "spec_headers ?o =
      [js ''To: a@b.c'', js ''Subject: Re: S'', js ''Content-Type: text/plain; charset=utf-8'',
       js ''In-Reply-To: <abc@x>'', js ''References: <abc@x>'']"
    by (simp add: spec_headers_def optional_line_def spec_threading_def js_def)
  from encode_without_attachments [of ?o "js ''17''" "js ''k3j''" "\<lambda>p. None"] a
  have "buildRawMessage_w (js ''17'') (js ''k3j'') (\<lambda>p. None) ?o =
      Inr (encodeBase64Url (join CRLF (spec_headers ?o) @ CRLF @ CRLF @ bodyText ?o))"
    by blast
  then show ?thesis
    by (simp add: hdrs)
qed

lemma push_chunks_acc: "push_chunks e i ls = ls @ push_chunks e i []"
proof (induction "length e - i" arbitrary: i ls rule: less_induct)
  case less
  show ?case
  proof (cases "i < length e")
    case True
    then have "length e - (i + 76) < length e - i" by simp
    from less [OF this] have
      "push_chunks e (i + 76) (ls @ [take 76 (drop i e)]) =
         (ls @ [take 76 (drop i e)]) @ push_chunks e (i + 76) []"
      "push_chunks e (i + 76) ([] @ [take 76 (drop i e)]) =
         ([] @ [take 76 (drop i e)]) @ push_chunks e (i + 76) []"
      by blast+
    with True show ?thesis
      by (simp add: push_chunks.simps [of e i])
  next
    case False
    then show ?thesis
      by (simp add: push_chunks.simps [of e i])
  qed
qed

lemma push_chunks_unfold:
  "push_chunks e i [] =
     (if i < length e then take 76 (drop i e) # push_chunks e (i + 76) [] else [])"
  using push_chunks_acc [of e "i + 76" "[take 76 (drop i e)]"]
  by (simp add: push_chunks.simps [of e i "[]"])

lemma chunks_concat: "concat (push_chunks e i []) = drop i e"
proof (induction "length e - i" arbitrary: i rule: less_induct)
  case less
  show ?case
  proof (cases "i < length e")
    case True
    then have "length e - (i + 76) < length e - i" by simp
    from less [OF this] have "concat (push_chunks e (i + 76) []) = drop (i + 76) e" .
    with True show ?thesis
      by (subst push_chunks_unfold) (simp add: add.commute [of i 76] flip: drop_drop)
  next
    case False
    then show ?thesis
      by (subst push_chunks_unfold) simp
  qed
qed

lemma chunks_length: "l \<in> set (push_chunks e i []) \<Longrightarrow> 0 < length l \<and> length l \<le> 76"
proof (induction "length e - i" arbitrary: i rule: less_induct)
  case less
  show ?case
  proof (cases "i < length e")
    case True
    then have lt: "length e - (i + 76) < length e - i" by simp
    from less(2) True have
      "l = take 76 (drop i e) \<or> l \<in> set (push_chunks e (i + 76) [])"
      by (subst (asm) push_chunks_unfold) simp
    then show ?thesis
      using less(1) [OF lt] True by auto
  next
    case False
    with less(2) show ?thesis
      by (subst (asm) push_chunks_unfold) simp
  qed
qed

lemma chunks_full: "l \<in> set (butlast (push_chunks e i [])) \<Longrightarrow> length l = 76"
proof (induction "length e - i" arbitrary: i rule: less_induct)
  case less
  show ?case
  proof (cases "i < length e")
    case True
    then have lt: "length e - (i + 76) < length e - i" by simp
    show ?thesis
    proof (cases "push_chunks e (i + 76) [] = []")
      case True
      with less(2) \<open>i < length e\<close> show ?thesis
        by (subst (asm) push_chunks_unfold) simp
    next
      case False
      then have "i + 76 < length e"
        by (subst (asm) push_chunks_unfold) (simp split: if_splits)
      with less(2) \<open>i < length e\<close> False have
        "l = take 76 (drop i e) \<or> l \<in> set (butlast (push_chunks e (i + 76) []))"
        by (subst (asm) push_chunks_unfold) simp
      then show ?thesis
        using less(1) [OF lt] \<open>i + 76 < length e\<close> by auto
    qed
  next
    case False
    with less(2) show ?thesis
      by (subst (asm) push_chunks_unfold) simp
  qed
qed

lemma multipartLines_spec:
  "multipartLines boundary opts =
     spec_multipart_headers boundary opts @
     [[], js ''--'' @ boundary, js ''Content-Type: text/plain; charset=utf-8'', [],
      bodyText opts, []]"
  by (simp add: multipartLines_def spec_multipart_headers_def Let_def push_if_optional
      push_threading_spec subjectLine_def)

text \<open>
  Claim C6. With exactly one attachment whose file can be read, the message before the
  outer encoding is, joined with CRLF: the multipart header block (its content type
  \<open>multipart/mixed\<close>) and a blank line; a first body part behind the boundary marker,
  the \<open>text/plain\<close> body; a second body part behind the boundary marker, with
  \<open>Content-Transfer-Encoding: base64\<close> and the lines \<open>chunks\<close>; and the final
  boundary line, which ends with \<open>--\<close>. The lines \<open>chunks\<close> are the standard,
  padded base64 text of the file cut into pieces: together they give that text, each
  has between 1 and 76 characters, and all but the last have exactly 76.
\<close>

theorem encode_one_attachment:
  "attachments opts = Some [filePath] \<and> fs filePath = Some content \<longrightarrow>
   (let boundary = js ''boundary_'' @ now @ js ''_'' @ random;
        filename = basename filePath;
        encoded = base64_encode base64_alphabet True content;
        chunks = push_chunks encoded 0 []
    in buildRawMessage_w now random fs opts =
         Inr (encodeBase64Url (join CRLF
           (spec_multipart_headers boundary opts @ [[]] @
            [js ''--'' @ boundary, js ''Content-Type: text/plain; charset=utf-8'', [],
             bodyText opts, []] @
            [js ''--'' @ boundary,
             js ''Content-Type: '' @ guessMimeType filename @ js ''; name='' @ [0x22] @
               filename @ [0x22],
             js ''Content-Transfer-Encoding: base64'',
             js ''Content-Disposition: attachment; filename='' @ [0x22] @ filename @ [0x22],
             []] @
            chunks @ [[]] @
            [js ''--'' @ boundary @ js ''--'']))) \<and>
       concat chunks = encoded \<and>
       (\<forall>l \<in> set chunks. 0 < length l \<and> length l \<le> 76) \<and>
       (\<forall>l \<in> set (butlast chunks). length l = 76))"
proof (intro impI)
  assume h: "attachments opts = Some [filePath] \<and> fs filePath = Some content"
  let ?e = "base64_encode base64_alphabet True content"
  have acc: "\<And>ls. push_chunks ?e 0 ls = ls @ push_chunks ?e 0 []"
    by (rule push_chunks_acc)
  show "(let boundary = js ''boundary_'' @ now @ js ''_'' @ random;
        filename = basename filePath;
        encoded = base64_encode base64_alphabet True content;
        chunks = push_chunks encoded 0 []
    in buildRawMessage_w now random fs opts =
         Inr (encodeBase64Url (join CRLF
           (spec_multipart_headers boundary opts @ [[]] @
            [js ''--'' @ boundary, js ''Content-Type: text/plain; charset=utf-8'', [],
             bodyText opts, []] @
            [js ''--'' @ boundary,
             js ''Content-Type: '' @ guessMimeType filename @ js ''; name='' @ [0x22] @
               filename @ [0x22],
             js ''Content-Transfer-Encoding: base64'',
             js ''Content-Disposition: attachment; filename='' @ [0x22] @ filename @ [0x22],
             []] @
            chunks @ [[]] @
            [js ''--'' @ boundary @ js ''--'']))) \<and>
       concat chunks = encoded \<and>
       (\<forall>l \<in> set chunks. 0 < length l \<and> length l \<le> 76) \<and>
       (\<forall>l \<in> set (butlast chunks). length l = 76))"
    unfolding Let_def
  proof (intro conjI ballI)
    show "buildRawMessage_w now random fs opts =
      Inr (encodeBase64Url (join CRLF
           (spec_multipart_headers (js ''boundary_'' @ now @ js ''_'' @ random) opts @ [[]] @
            [js ''--'' @ (js ''boundary_'' @ now @ js ''_'' @ random),
             js ''Content-Type: text/plain; charset=utf-8'', [], bodyText opts, []] @
            [js ''--'' @ (js ''boundary_'' @ now @ js ''_'' @ random),
             js ''Content-Type: '' @ guessMimeType (basename filePath) @ js ''; name='' @ [0x22] @
               basename filePath @ [0x22],
             js ''Content-Transfer-Encoding: base64'',
             js ''Content-Disposition: attachment; filename='' @ [0x22] @ basename filePath @
               [0x22],
             []] @
            push_chunks ?e 0 [] @ [[]] @
            [js ''--'' @ (js ''boundary_'' @ now @ js ''_'' @ random) @ js ''--''])))"
      using h
      by (simp add: buildRawMessage_w_def Let_def multipartLines_spec)
        (subst acc, simp)
  next
    show "concat (push_chunks ?e 0 []) = ?e"
      by (simp add: chunks_concat)
  next
    fix l
    assume "l \<in> set (push_chunks ?e 0 [])"
    then show "0 < length l" "length l \<le> 76"
      using chunks_length by blast+
  next
    fix l
    assume "l \<in> set (butlast (push_chunks ?e 0 []))"
    then show "length l = 76"
      by (rule chunks_full)
  qed
qed

lemma example_file:
  "basename (js ''/tmp/a.txt'') = js ''a.txt''"
  "guessMimeType (js ''a.txt'') = js ''text/plain''"
  "base64_encode base64_alphabet True [0x48, 0x69] = js ''SGk=''"
  "push_chunks (js ''SGk='') 0 [] = [js ''SGk='']"
  by code_simp+

theorem encode_one_attachment_witness:
  "(if js ''/tmp/a.txt'' = js ''/tmp/a.txt'' then Some [0x48, 0x69 :: byte] else None) =
     Some [0x48, 0x69] \<and>
   buildRawMessage_w (js ''17'') (js ''k3j'')
     (\<lambda>p. if p = js ''/tmp/a.txt'' then Some [0x48, 0x69] else None)
     \<lparr>to = js ''a@b.c'', subject = js ''S'', bodyText = js ''hello'', cc = None,
      bcc = None, inReplyTo = None, references = None, threadSubject = None,
      attachments = Some [js ''/tmp/a.txt'']\<rparr> =
     Inr (encodeBase64Url (join CRLF
       [js ''To: a@b.c'', js ''Subject: S'', js ''MIME-Version: 1.0'',
        js ''Content-Type: multipart/mixed; boundary='' @ [0x22] @ js ''boundary_17_k3j'' @ [0x22],
        [],
        js ''--boundary_17_k3j'', js ''Content-Type: text/plain; charset=utf-8'', [],
        js ''hello'', [],
        js ''--boundary_17_k3j'',
        js ''Content-Type: text/plain; name='' @ [0x22] @ js ''a.txt'' @ [0x22],
        js ''Content-Transfer-Encoding: base64'',
        js ''Content-Disposition: attachment; filename='' @ [0x22] @ js ''a.txt'' @ [0x22],
        [],
        js ''SGk='', [],
        js ''--boundary_17_k3j--'']))"
proof -
  let ?o = "\<lparr>to = js ''a@b.c'', subject = js ''S'', bodyText = js ''hello'', cc = None,
      bcc = None, inReplyTo = None, references = None, threadSubject = None,
      attachments = Some [js ''/tmp/a.txt'']\<rparr>"
  let ?fs = "\<lambda>p. if p = js ''/tmp/a.txt'' then Some [0x48, 0x69 :: byte] else None"
  have h: "attachments ?o = Some [js ''/tmp/a.txt''] \<and> ?fs (js ''/tmp/a.txt'') = Some [0x48, 0x69]"
    by simp
  have hdrs: "spec_multipart_headers (js ''boundary_'' @ js ''17'' @ js ''_'' @ js ''k3j'') ?o =
      [js ''To: a@b.c'', js ''Subject: S'', js ''MIME-Version: 1.0'',
       js ''Content-Type: multipart/mixed; boundary='' @ [0x22] @ js ''boundary_17_k3j'' @ [0x22]]"
    by (simp add: spec_multipart_headers_def optional_line_def spec_threading_def js_def)
  from encode_one_attachment [of ?o "js ''/tmp/a.txt''" ?fs "[0x48, 0x69]" "js ''17''" "js ''k3j''"] h
  have "buildRawMessage_w (js ''17'') (js ''k3j'') ?fs ?o =
      Inr (encodeBase64Url (join CRLF
           (spec_multipart_headers (js ''boundary_'' @ js ''17'' @ js ''_'' @ js ''k3j'') ?o @ [[]] @
            [js ''--'' @ (js ''boundary_'' @ js ''17'' @ js ''_'' @ js ''k3j''),
             js ''Content-Type: text/plain; charset=utf-8'', [], bodyText ?o, []] @
            [js ''--'' @ (js ''boundary_'' @ js ''17'' @ js ''_'' @ js ''k3j''),
             js ''Content-Type: '' @ guessMimeType (basename (js ''/tmp/a.txt'')) @
               js ''; name='' @ [0x22] @ basename (js ''/tmp/a.txt'') @ [0x22],
             js ''Content-Transfer-Encoding: base64'',
             js ''Content-Disposition: attachment; filename='' @ [0x22] @
               basename (js ''/tmp/a.txt'') @ [0x22],
             []] @
            push_chunks (base64_encode base64_alphabet True [0x48, 0x69]) 0 [] @ [[]] @
            [js ''--'' @ (js ''boundary_'' @ js ''17'' @ js ''_'' @ js ''k3j'') @ js ''--''])))"
    unfolding Let_def by blast
  then show ?thesis
    unfolding example_file hdrs by (simp add: js_def)
qed

section \<open>Properties of the reply-threading derivation\<close>

lemma getHeader_first:
  "\<lbrakk>hdrs = Some (pre @ h # post); \<forall>x \<in> set pre. \<not> header_is name x; header_is name h\<rbrakk>
   \<Longrightarrow> getHeader hdrs name = (case hvalue h of None \<Rightarrow> [] | Some v \<Rightarrow> v)"
  using find_first [of "pre @ h # post" pre h post "header_is name"]
  by (simp add: getHeader_def)

lemma getHeader_none:
  "\<lbrakk>hdrs = Some hs; \<forall>x \<in> set hs. \<not> header_is name x\<rbrakk> \<Longrightarrow> getHeader hdrs name = []"
  by (simp add: getHeader_def find_None_iff [THEN iffD2])

text \<open>
  Claim C7. The options of a reply are derived from the original's headers as
  follows. \<open>inReplyTo\<close> is the value of the \<open>Message-ID\<close> header; \<open>references\<close> is the
  value of the \<open>References\<close> header with a space and the \<open>Message-ID\<close> appended, and just
  the \<open>Message-ID\<close> when there is no \<open>References\<close> value (no such header, or an empty
  one); \<open>threadSubject\<close> is the \<open>Subject\<close> unchanged when it starts with \<open>Re:\<close> and
  with \<open>Re: \<close> prepended otherwise; \<open>to\<close> is the value of the \<open>From\<close> header. The
  value of a header is that of the first header of the list whose name equals the
  wanted name up to case, and the empty string when the list has none.
\<close>

theorem reply_threading_derivation:
  "inReplyTo (replyOptions hdrs text paths) = Some (getHeader hdrs (js ''Message-ID'')) \<and>
   references (replyOptions hdrs text paths) =
     Some (if getHeader hdrs (js ''References'') = [] then getHeader hdrs (js ''Message-ID'')
           else getHeader hdrs (js ''References'') @ js '' '' @
                getHeader hdrs (js ''Message-ID'')) \<and>
   threadSubject (replyOptions hdrs text paths) =
     Some (if startsWith (getHeader hdrs (js ''Subject'')) (js ''Re:'')
           then getHeader hdrs (js ''Subject'')
           else js ''Re: '' @ getHeader hdrs (js ''Subject'')) \<and>
   to (replyOptions hdrs text paths) = getHeader hdrs (js ''From'') \<and>
   (\<forall>name pre h post.
      hdrs = Some (pre @ h # post) \<and> (\<forall>x \<in> set pre. \<not> header_is name x) \<and> header_is name h \<longrightarrow>
      getHeader hdrs name = (case hvalue h of None \<Rightarrow> [] | Some v \<Rightarrow> v)) \<and>
   (\<forall>name hs.
      hdrs = Some hs \<and> (\<forall>x \<in> set hs. \<not> header_is name x) \<longrightarrow> getHeader hdrs name = [])"
  by (auto simp: replyOptions_def Let_def getHeader_first getHeader_none)

lemma example_header_names:
  "header_is (js ''Message-ID'') (Header (Some (js ''message-id'')) v)"
  "header_is (js ''References'') (Header (Some (js ''References'')) v)"
  "header_is (js ''Subject'') (Header (Some (js ''SUBJECT'')) v)"
  "header_is (js ''From'') (Header (Some (js ''From'')) v)"
  "\<not> header_is (js ''References'') (Header (Some (js ''message-id'')) v)"
  "\<not> header_is (js ''Subject'') (Header (Some (js ''message-id'')) v)"
  "\<not> header_is (js ''Subject'') (Header (Some (js ''References'')) v)"
  "\<not> header_is (js ''From'') (Header (Some (js ''message-id'')) v)"
  "\<not> header_is (js ''From'') (Header (Some (js ''References'')) v)"
  "\<not> header_is (js ''From'') (Header (Some (js ''SUBJECT'')) v)"
  by (simp_all add: header_is_def toLowerCase_def lower_unit_def js_def)

theorem reply_threading_derivation_witness:
  "inReplyTo (replyOptions (Some
     [Header (Some (js ''message-id'')) (Some (js ''<abc@x>'')),
      Header (Some (js ''References'')) (Some (js ''<zzz@x>'')),
      Header (Some (js ''SUBJECT'')) (Some (js ''Meeting'')),
      Header (Some (js ''From'')) (Some (js ''a@b.com''))]) (js ''hi'') None) =
     Some (js ''<abc@x>'') \<and>
   references (replyOptions (Some
     [Header (Some (js ''message-id'')) (Some (js ''<abc@x>'')),
      Header (Some (js ''References'')) (Some (js ''<zzz@x>'')),
      Header (Some (js ''SUBJECT'')) (Some (js ''Meeting'')),
      Header (Some (js ''From'')) (Some (js ''a@b.com''))]) (js ''hi'') None) =
     Some (js ''<zzz@x> <abc@x>'') \<and>
   threadSubject (replyOptions (Some
     [Header (Some (js ''message-id'')) (Some (js ''<abc@x>'')),
      Header (Some (js ''References'')) (Some (js ''<zzz@x>'')),
      Header (Some (js ''SUBJECT'')) (Some (js ''Meeting'')),
      Header (Some (js ''From'')) (Some (js ''a@b.com''))]) (js ''hi'') None) =
     Some (js ''Re: Meeting'') \<and>
   to (replyOptions (Some
     [Header (Some (js ''message-id'')) (Some (js ''<abc@x>'')),
      Header (Some (js ''References'')) (Some (js ''<zzz@x>'')),
      Header (Some (js ''SUBJECT'')) (Some (js ''Meeting'')),
      Header (Some (js ''From'')) (Some (js ''a@b.com''))]) (js ''hi'') None) = js ''a@b.com''"
proof -
  let ?m = "Header (Some (js ''message-id'')) (Some (js ''<abc@x>''))"
  let ?r = "Header (Some (js ''References'')) (Some (js ''<zzz@x>''))"
  let ?s = "Header (Some (js ''SUBJECT'')) (Some (js ''Meeting''))"
  let ?f = "Header (Some (js ''From'')) (Some (js ''a@b.com''))"
  let ?hs = "Some [?m, ?r, ?s, ?f]"
  note inst = reply_threading_derivation [of ?hs "js ''hi''" None]
  from inst have first: "\<And>name pre h post.
      ?hs = Some (pre @ h # post) \<and> (\<forall>x \<in> set pre. \<not> header_is name x) \<and> header_is name h \<Longrightarrow>
      getHeader ?hs name = (case hvalue h of None \<Rightarrow> [] | Some v \<Rightarrow> v)"
    by blast
  have m: "getHeader ?hs (js ''Message-ID'') = js ''<abc@x>''"
    using first [of "[]" ?m "[?r, ?s, ?f]" "js ''Message-ID''"]
    by (simp add: example_header_names)
  have r: "getHeader ?hs (js ''References'') = js ''<zzz@x>''"
    using first [of "[?m]" ?r "[?s, ?f]" "js ''References''"]
    by (simp add: example_header_names)
  have s: "getHeader ?hs (js ''Subject'') = js ''Meeting''"
    using first [of "[?m, ?r]" ?s "[?f]" "js ''Subject''"]
    by (simp add: example_header_names)
  have f: "getHeader ?hs (js ''From'') = js ''a@b.com''"
    using first [of "[?m, ?r, ?s]" ?f "[]" "js ''From''"]
    by (simp add: example_header_names)
  have texts: "js ''<zzz@x>'' \<noteq> []" "\<not> startsWith (js ''Meeting'') (js ''Re:'')"
    "js ''<zzz@x>'' @ js '' '' @ js ''<abc@x>'' = js ''<zzz@x> <abc@x>''"
    "js ''Re: '' @ js ''Meeting'' = js ''Re: Meeting''"
    by (simp_all add: js_def startsWith_def)
  from inst show ?thesis
    unfolding m r s f by (simp only: texts if_False simp_thms)
qed

section \<open>Properties of the HTML-to-text degradation\<close>

lemma rmatch_chr:
  "rmatch (chr c # r) s =
     (case s of [] \<Rightarrow> None | x # xs \<Rightarrow> if x = c then map_option Suc (rmatch r xs) else None)"
  by (simp add: chr_def)

lemma rmatch_chr_i:
  "rmatch (chr_i l u # r) s =
     (case s of [] \<Rightarrow> None
      | x # xs \<Rightarrow> if x = l \<or> x = u then map_option Suc (rmatch r xs) else None)"
  by (simp add: chr_i_def)

lemma rmatch_lit:
  "rmatch (map chr w) s = (if take (length w) s = w then Some (length w) else None)"
  by (induction w arbitrary: s) (auto simp: rmatch_chr split: list.splits)

lemma rmatch_entity: "rmatch (lit w) s = entity w s"
proof -
  have "length (js w) = length w" by (simp add: js_def)
  then show ?thesis
    unfolding lit_def entity_def rmatch_lit by simp
qed

lemma rmatch_until_gt:
  "rmatch [(\<lambda>x. x \<noteq> 0x3E, Star), chr 0x3E] s =
     (if dropWhile (\<lambda>x. x \<noteq> 0x3E) s = [] then None
      else Some (length (takeWhile (\<lambda>x. x \<noteq> 0x3E) s) + 1))"
  by (induction s) (auto simp: rmatch_chr)

lemma rmatch_any_tag: "rmatch re_tag s = any_tag s"
proof (cases s)
  case Nil
  then show ?thesis by (simp add: re_tag_def any_tag_def rmatch_chr)
next
  case s1: (Cons lt rest)
  show ?thesis
  proof (cases rest)
    case Nil
    with s1 show ?thesis by (simp add: re_tag_def any_tag_def rmatch_chr)
  next
    case (Cons x xs)
    have "rmatch [(\<lambda>x. x \<noteq> 0x3E, Plus), chr 0x3E] (x # xs) =
        (if x \<noteq> 0x3E then map_option Suc (rmatch [(\<lambda>x. x \<noteq> 0x3E, Star), chr 0x3E] xs)
         else None)"
      by simp
    with s1 Cons show ?thesis
      by (auto simp add: re_tag_def any_tag_def rmatch_chr rmatch_until_gt simp del: rmatch.simps)
  qed
qed


lemma space_not_markup: "is_space c \<Longrightarrow> c \<noteq> 0x2F \<and> c \<noteq> 0x3E"
  by (auto simp: is_space_def)

lemma rmatch_slash_gt:
  "rmatch [(\<lambda>x. x = 0x2F, Opt), chr 0x3E] s =
     (case s of
        [] \<Rightarrow> None
      | x # rest2 \<Rightarrow>
          if x = 0x3E then Some 1
          else if x = 0x2F then
            (case rest2 of [] \<Rightarrow> None | y # rest3 \<Rightarrow> if y = 0x3E then Some 2 else None)
          else None)"
  by (auto simp: rmatch_chr split: list.splits)

lemma rmatch_br_tail:
  "rmatch [(is_space, Star), (\<lambda>x. x = 0x2F, Opt), chr 0x3E] s =
     (case dropWhile is_space s of
        [] \<Rightarrow> None
      | x # rest2 \<Rightarrow>
          if x = 0x3E then Some (length (takeWhile is_space s) + 1)
          else if x = 0x2F then
            (case rest2 of
               [] \<Rightarrow> None
             | y # rest3 \<Rightarrow>
                 if y = 0x3E then Some (length (takeWhile is_space s) + 2) else None)
          else None)"
proof (induction s)
  case Nil
  show ?case by (simp add: rmatch_chr)
next
  case (Cons c s)
  have unfold: "rmatch [(is_space, Star), (\<lambda>x. x = 0x2F, Opt), chr 0x3E] (c # s) =
      (if is_space c then
         (case rmatch [(is_space, Star), (\<lambda>x. x = 0x2F, Opt), chr 0x3E] s of
            Some n \<Rightarrow> Some (Suc n)
          | None \<Rightarrow> rmatch [(\<lambda>x. x = 0x2F, Opt), chr 0x3E] (c # s))
       else rmatch [(\<lambda>x. x = 0x2F, Opt), chr 0x3E] (c # s))"
    by simp
  show ?case
  proof (cases "is_space c")
    case True
    define d where "d = dropWhile is_space s"
    define n where "n = length (takeWhile is_space s)"
    have none: "rmatch [(\<lambda>x. x = 0x2F, Opt), chr 0x3E] (c # s) = None"
      using space_not_markup [OF True] by (simp add: rmatch_slash_gt del: rmatch.simps)
    have ih: "rmatch [(is_space, Star), (\<lambda>x. x = 0x2F, Opt), chr 0x3E] s =
        (case d of
           [] \<Rightarrow> None
         | x # rest2 \<Rightarrow>
             if x = 0x3E then Some (n + 1)
             else if x = 0x2F then
               (case rest2 of [] \<Rightarrow> None | y # rest3 \<Rightarrow> if y = 0x3E then Some (n + 2) else None)
             else None)"
      unfolding d_def n_def by (rule Cons)
    have dw: "dropWhile is_space (c # s) = d"
      and tw: "length (takeWhile is_space (c # s)) = Suc n"
      using True by (simp_all add: d_def n_def)
    show ?thesis
      unfolding unfold ih dw tw none using True by (auto split: list.splits)
  next
    case False
    then have dw: "dropWhile is_space (c # s) = c # s"
      and tw: "length (takeWhile is_space (c # s)) = 0"
      by simp_all
    show ?thesis
      unfolding unfold dw tw using False
      by (auto simp add: rmatch_slash_gt simp del: rmatch.simps split: list.splits)
  qed
qed

lemma rmatch_br_tag: "rmatch re_br s = br_tag s"
proof (cases s)
  case Nil
  then show ?thesis by (simp add: re_br_def br_tag_def rmatch_chr)
next
  case s1: (Cons lt t1)
  show ?thesis
  proof (cases t1)
    case Nil
    with s1 show ?thesis by (simp add: re_br_def br_tag_def rmatch_chr rmatch_chr_i)
  next
    case s2: (Cons b t2)
    show ?thesis
    proof (cases t2)
      case Nil
      with s1 s2 show ?thesis by (simp add: re_br_def br_tag_def rmatch_chr rmatch_chr_i)
    next
      case (Cons r rest)
      define d where "d = dropWhile is_space rest"
      define n where "n = length (takeWhile is_space rest)"
      have tail: "rmatch [(is_space, Star), (\<lambda>x. x = 0x2F, Opt), chr 0x3E] rest =
          (case d of
             [] \<Rightarrow> None
           | x # rest2 \<Rightarrow>
               if x = 0x3E then Some (n + 1)
               else if x = 0x2F then
                 (case rest2 of [] \<Rightarrow> None | y # rest3 \<Rightarrow> if y = 0x3E then Some (n + 2) else None)
               else None)"
        unfolding d_def n_def by (rule rmatch_br_tail)
      have br: "br_tag (lt # b # r # rest) =
          (if lt = 0x3C \<and> (b = 0x62 \<or> b = 0x42) \<and> (r = 0x72 \<or> r = 0x52) then
             (case d of
                [] \<Rightarrow> None
              | x # rest2 \<Rightarrow>
                  if x = 0x3E then Some (n + 4)
                  else if x = 0x2F then
                    (case rest2 of [] \<Rightarrow> None | y # rest3 \<Rightarrow> if y = 0x3E then Some (n + 5) else None)
                  else None)
           else None)"
        unfolding d_def n_def by (simp add: br_tag_def)
      have re: "rmatch re_br (lt # b # r # rest) =
          (if lt = 0x3C \<and> (b = 0x62 \<or> b = 0x42) \<and> (r = 0x72 \<or> r = 0x52) then
             map_option (\<lambda>k. Suc (Suc (Suc k)))
               (rmatch [(is_space, Star), (\<lambda>x. x = 0x2F, Opt), chr 0x3E] rest)
           else None)"
        by (simp add: re_br_def rmatch_chr rmatch_chr_i option.map_comp comp_def
            del: rmatch.simps)
      show ?thesis
        unfolding s1 s2 Cons re br tail by (auto split: list.splits)
    qed
  qed
qed

lemma letters_p:
  "letters (js ''p'') s =
     (case s of [] \<Rightarrow> None | c # cs \<Rightarrow> if c = 0x70 \<or> c = 0x50 then Some cs else None)"
  by (cases s) (simp_all add: js_def)

lemma rmatch_close_p: "rmatch re_close_p s = closing_tag ''p'' s"
  by (simp add: re_close_p_def closing_tag_def rmatch_chr rmatch_chr_i letters_p
      split: list.splits)


lemma letters_div:
  "letters (js ''div'') s =
     (case s of
        d # i # v # cs \<Rightarrow>
          if (d = 0x64 \<or> d = 0x44) \<and> (i = 0x69 \<or> i = 0x49) \<and> (v = 0x76 \<or> v = 0x56)
          then Some cs else None
      | _ \<Rightarrow> None)"
  by (simp add: js_def split: list.splits)

lemma rmatch_close_div: "rmatch re_close_div s = closing_tag ''div'' s"
  by (simp add: re_close_div_def closing_tag_def rmatch_chr rmatch_chr_i letters_div
      split: list.splits)

lemma replace_substitute:
  assumes "\<And>s. rmatch re s = piece s"
  shows "replace re rep s = substitute piece rep s"
proof -
  have "rmatch re = piece"
    using assms by (rule ext)
  then show ?thesis
    by (simp add: replace_def substitute_def)
qed

text \<open>
  Claim C8, as the code has it. \<open>stripHtmlTags\<close> performs, in this order: every
  line-break tag without attributes (\<open><br\<close> in either case, any white space, an optional
  slash, \<open>>\<close>) becomes one line break; every closing \<open></p>\<close> becomes two line breaks;
  every closing \<open></div>\<close> becomes one line break; every remaining tag (\<open><\<close>, at least one
  character, up to the next \<open>>\<close>) is removed; the entities \<open>&nbsp;\<close>, \<open>&amp;\<close>, \<open>&lt;\<close>,
  \<open>&gt;\<close>, \<open>&quot;\<close> and \<open>&#39;\<close> are decoded one after the other; the result is
  trimmed. A \<open><br\<close> followed by white space and an attribute is no line-break tag: the
  line-break pattern does not match there and the pattern for remaining tags does, so
  the tag is removed and nothing is written for it.
\<close>

theorem html_degradation_steps:
  "stripHtmlTags html = spec_stripHtmlTags html \<and>
   (\<forall>sp attr rest.
      is_space sp \<and> attr \<noteq> [] \<and> 0x3E \<notin> set attr \<and> \<not> is_space (hd attr) \<and> hd attr \<noteq> 0x2F \<longrightarrow>
      rmatch re_br (js ''<br'' @ sp # attr @ 0x3E # rest) = None \<and>
      rmatch re_tag (js ''<br'' @ sp # attr @ 0x3E # rest) = Some (length attr + 5))"
proof (intro conjI allI impI)
  show "stripHtmlTags html = spec_stripHtmlTags html"
    by (simp add: stripHtmlTags_def spec_stripHtmlTags_def Let_def
        replace_substitute [OF rmatch_br_tag] replace_substitute [OF rmatch_close_p]
        replace_substitute [OF rmatch_close_div] replace_substitute [OF rmatch_any_tag]
        replace_substitute [OF rmatch_entity])
next
  fix sp attr rest
  assume h: "is_space sp \<and> attr \<noteq> [] \<and> 0x3E \<notin> set attr \<and> \<not> is_space (hd attr) \<and>
    hd attr \<noteq> 0x2F"
  then obtain a as where attr: "attr = a # as"
    by (cases attr) auto
  with h have a: "\<not> is_space a" "a \<noteq> 0x2F" "a \<noteq> 0x3E" "0x3E \<notin> set as"
    by auto
  have form: "js ''<br'' @ sp # attr @ 0x3E # rest = 0x3C # 0x62 # 0x72 # sp # a # as @ 0x3E # rest"
    by (simp add: js_def attr)
  have dw: "dropWhile is_space (sp # a # as @ 0x3E # rest) = a # as @ 0x3E # rest"
    using h a by simp
  show "rmatch re_br (js ''<br'' @ sp # attr @ 0x3E # rest) = None"
    unfolding rmatch_br_tag form using h a space_not_markup [of sp]
    by (simp add: br_tag_def dw)
  have tw: "takeWhile (\<lambda>x. x \<noteq> 0x3E) (0x62 # 0x72 # sp # a # as @ 0x3E # rest) =
      0x62 # 0x72 # sp # a # as"
    using h a space_not_markup [of sp] by (auto simp add: takeWhile_tail)
  have dw2: "dropWhile (\<lambda>x. x \<noteq> 0x3E) (0x62 # 0x72 # sp # a # as @ 0x3E # rest) = 0x3E # rest"
    using h a space_not_markup [of sp] by (auto simp add: dropWhile_append3)
  show "rmatch re_tag (js ''<br'' @ sp # attr @ 0x3E # rest) = Some (length attr + 5)"
    unfolding rmatch_any_tag form using tw dw2 by (simp add: any_tag_def attr)
qed

lemma example_br:
  "stripHtmlTags (js ''a<br class=x>b'') = js ''ab''"
  "stripHtmlTags (js ''a<br>b'') = [0x61, 0x0A, 0x62]"
  "stripHtmlTags (js ''a<BR />b'') = [0x61, 0x0A, 0x62]"
  by code_simp+

theorem html_degradation_steps_witness:
  "is_space 0x20 \<and> js ''class=x'' \<noteq> [] \<and> 0x3E \<notin> set (js ''class=x'') \<and>
   \<not> is_space (hd (js ''class=x'')) \<and> hd (js ''class=x'') \<noteq> 0x2F \<and>
   rmatch re_br (js ''<br'' @ 0x20 # js ''class=x'' @ 0x3E # js ''b'') = None \<and>
   rmatch re_tag (js ''<br'' @ 0x20 # js ''class=x'' @ 0x3E # js ''b'') = Some 12"
proof -
  have h: "is_space 0x20 \<and> js ''class=x'' \<noteq> [] \<and> 0x3E \<notin> set (js ''class=x'') \<and>
      \<not> is_space (hd (js ''class=x'')) \<and> hd (js ''class=x'') \<noteq> 0x2F"
    by (simp add: is_space_def js_def)
  have n: "length (js ''class=x'') + 5 = 12"
    by (simp add: js_def)
  from html_degradation_steps [of "[]"] have
    "\<forall>sp attr rest.
      is_space sp \<and> attr \<noteq> [] \<and> 0x3E \<notin> set attr \<and> \<not> is_space (hd attr) \<and> hd attr \<noteq> 0x2F \<longrightarrow>
      rmatch re_br (js ''<br'' @ sp # attr @ 0x3E # rest) = None \<and>
      rmatch re_tag (js ''<br'' @ sp # attr @ 0x3E # rest) = Some (length attr + 5)"
    by (rule conjunct2)
  with h have
    "rmatch re_br (js ''<br'' @ 0x20 # js ''class=x'' @ 0x3E # js ''b'') = None \<and>
     rmatch re_tag (js ''<br'' @ 0x20 # js ''class=x'' @ 0x3E # js ''b'') =
       Some (length (js ''class=x'') + 5)"
    by blast
  with h show ?thesis
    unfolding n by blast
qed

text \<open>
  Claim C8 as stated fails. In \<open>a<br class=x>b\<close> the line-break tag carries an
  attribute; the code removes it and writes no line break, so the result is \<open>ab\<close>. The
  tags \<open><br>\<close> and \<open><BR />\<close> in the same place give a line break.
\<close>

theorem br_attribute_counterexample:
  "stripHtmlTags (js ''a<br class=x>b'') = js ''ab'' \<and>
   stripHtmlTags (js ''a<br>b'') = js ''a'' @ [0x0A] @ js ''b'' \<and>
   stripHtmlTags (js ''a<BR />b'') = js ''a'' @ [0x0A] @ js ''b''"
  using example_br by (simp add: js_def)

end
